theory Spec2Isabelle
  imports Complex_Main
begin

section \<open>Data model of Cesium3DTilesetTraversal.js\<close>

text \<open>
  The traversal works on JavaScript objects that it mutates in place: the tileset, its
  tiles (linked by \<open>parent\<close> and \<open>children\<close> references) and a few module-level
  buffers. The model keeps the tiles in a heap indexed by tile references (natural
  numbers), so that two references to one tile see the same fields, and passes the
  whole state through every function. Numbers are JavaScript doubles in the source and
  reals here; frame numbers are integers.

  A field written \<open>_name\<close> in the source is called \<open>name\<close> here. The tileset has both
  \<open>_skipLevelOfDetail\<close> and \<open>skipLevelOfDetail\<close>; the former is \<open>priv_skipLevelOfDetail\<close>.
\<close>

datatype Cesium3DTileRefine = ADD | REPLACE

datatype Intersect = OUTSIDE | INTERSECTING | INSIDE

datatype Cesium3DTileOptimizationHint = NOT_COMPUTED | SKIP_OPTIMIZATION | USE_OPTIMIZATION

datatype SceneMode = MORPHING | COLUMBUS_VIEW | SCENE2D | SCENE3D

datatype error = ReferenceError | TypeError

text \<open>
  Modelled from the spec: the plane masks of Core/CullingVolume, which is not among the
  sources. The spec names a mask that is inside, outside or indeterminate; the three
  constants are the 32-bit values the culling volume uses, and every other number is a
  mask of planes still to be tested.
\<close>

definition MASK_OUTSIDE :: nat where
  "MASK_OUTSIDE = 4294967295"

definition MASK_INSIDE :: nat where
  "MASK_INSIDE = 0"

definition MASK_INDETERMINATE :: nat where
  "MASK_INDETERMINATE = 2147483647"

text \<open>
  Modelled from the spec: \<open>CesiumMath.EPSILON7\<close> of Core/Math, the small positive floor
  \<open>1e-7\<close> under the distance.
\<close>

definition EPSILON7 :: real where
  "EPSILON7 = 1 / 10000000"

text \<open>
  A tile object is kept in two records under one reference: \<open>tile\<close> holds the fields
  that the traversal only reads (the tree structure and the content flags, which the
  loader sets between frames), \<open>tile_state\<close> those it writes.
\<close>

record tile =
  parent :: "nat option"
  children :: "nat list"
  refine :: Cesium3DTileRefine
  geometricError :: real
  contentAvailable :: bool
  contentUnloaded :: bool
  contentExpired :: bool
  hasEmptyContent :: bool
  hasTilesetContent :: bool
  optimChildrenWithinParent :: Cesium3DTileOptimizationHint
  depth :: int

record tile_state =
  featurePropertiesDirty :: bool
  lastStyleTime :: real
  distanceToCamera :: real
  centerZDepth :: real
  screenSpaceError :: real
  visibilityPlaneMask :: nat
  touchedFrame :: int
  visitedFrame :: int
  selectedFrame :: int
  lastSelectedFrameNumber :: int
  selected :: bool
  finalResolution :: bool
  ancestorWithContentAvailable :: "nat option"
  refines :: bool
  priority :: real

datatype cache_event = CacheReset | CacheTouch nat

text \<open>
  The state threaded through the traversal: the fields of the tileset that the source
  reads or writes, the heap of tiles (\<open>tiles\<close> and \<open>states\<close>), the log of calls to the tileset's cache (an
  outside collaborator) and \<open>baseTraversal.leaves\<close>, the one module-level buffer that
  is read after the function that fills it has returned. The stacks are local to their
  loops in the model; their high-water marks and the final \<open>trim\<close> calls only size the
  backing storage and are left out.
\<close>

record tileset =
  debugFreezeFrame :: bool
  maximumScreenSpaceError :: real
  tileset_geometricError :: real
  rootTile :: nat
  desiredTiles :: "nat list"
  selectedTiles :: "nat list"
  requestedTiles :: "nat list"
  selectedTilesToStyle :: "nat list"
  hasMixedContent :: bool
  cache :: "cache_event list"
  priv_skipLevelOfDetail :: bool
  skipLevelOfDetail :: bool
  immediatelyLoadDesiredLevelOfDetail :: bool
  skipLevels :: int
  skipScreenSpaceErrorFactor :: real
  loadSiblings :: bool
  dynamicScreenSpaceError :: bool
  dynamicScreenSpaceErrorComputedDensity :: real
  dynamicScreenSpaceErrorFactor :: real
  statistics_visited :: nat
  statistics_numberOfTilesCulledWithChildrenUnion :: nat
  leaves :: "nat list"
  tiles :: "nat \<Rightarrow> tile"
  states :: "nat \<Rightarrow> tile_state"

record planes =
  frustum_top :: real
  frustum_bottom :: real
  frustum_right :: real
  frustum_left :: real

record frustum =
  instanceofOrthographicFrustum :: bool
  offCenterFrustum :: "planes option"
  ownPlanes :: planes
  sseDenominator :: real

text \<open>
  The frame state. Besides the fields the source reads from it, it carries the results
  of the calls that leave the sources at hand: the methods of Cesium3DTile that take
  the frame state (\<open>distanceToTile\<close>, \<open>distanceToTileCenter\<close>, \<open>visibility\<close>,
  \<open>insideViewerRequestVolume\<close>, \<open>contentVisibility\<close>) as functions of the tile, and
  \<open>CesiumMath.fog\<close>. The methods \<open>updateTransform\<close> and \<open>updateExpiration\<close> change only
  what these functions stand for and are not modelled; the content flags of a tile are
  fixed during one call.
\<close>

record frame_state =
  frameNumber :: int
  mode :: SceneMode
  camera_frustum :: frustum
  drawingBufferHeight :: real
  drawingBufferWidth :: real
  distanceToTile :: "nat \<Rightarrow> real"
  distanceToTileCenter :: "nat \<Rightarrow> real"
  visibility :: "nat \<Rightarrow> nat \<Rightarrow> nat"
  insideViewerRequestVolume :: "nat \<Rightarrow> bool"
  contentVisibility :: "nat \<Rightarrow> Intersect"
  fog :: "real \<Rightarrow> real \<Rightarrow> real"

definition update_tile :: "nat \<Rightarrow> (tile_state \<Rightarrow> tile_state) \<Rightarrow> tileset \<Rightarrow> tileset" where
  "update_tile t f s = s\<lparr>states := (states s)(t := f (states s t))\<rparr>"

section \<open>Error metric, cache adapter and load requests\<close>

text \<open>
  The arithmetic of \<open>getScreenSpaceError\<close> is exact here: the rounding of doubles, their
  infinities and \<open>NaN\<close> are not modelled. The statements about the traversal use the
  computed error only as a value that is compared with \<open>maximumScreenSpaceError\<close>, and
  (for a geometric error of 0) as the constant 0 that the first branch returns. Where
  the rounding decides a statement, \<open>getScreenSpaceError_rounded\<close> below writes it out.
\<close>

definition getScreenSpaceError :: "tileset \<Rightarrow> real \<Rightarrow> nat \<Rightarrow> frame_state \<Rightarrow> real" where
  "getScreenSpaceError s ge t fs =
     (if ge = 0 then 0
      else if mode fs = SCENE2D \<or> instanceofOrthographicFrustum (camera_frustum fs) then
        (let fr = (case offCenterFrustum (camera_frustum fs) of
                     Some oc \<Rightarrow> oc
                   | None \<Rightarrow> ownPlanes (camera_frustum fs));
             pixelSize = max (frustum_top fr - frustum_bottom fr) (frustum_right fr - frustum_left fr)
                           / max (drawingBufferWidth fs) (drawingBufferHeight fs)
         in ge / pixelSize)
      else
        (let distance = max (distanceToCamera (states s t)) EPSILON7;
             err = (ge * drawingBufferHeight fs) / (distance * sseDenominator (camera_frustum fs))
         in if dynamicScreenSpaceError s
            then err - fog fs distance (dynamicScreenSpaceErrorComputedDensity s)
                         * dynamicScreenSpaceErrorFactor s
            else err))"

definition touch :: "tileset \<Rightarrow> nat \<Rightarrow> frame_state \<Rightarrow> tileset" where
  "touch s t fs =
     (if touchedFrame (states s t) = frameNumber fs then s
      else update_tile t (\<lambda>x. x\<lparr>touchedFrame := frameNumber fs\<rparr>)
             (s\<lparr>cache := cache s @ [CacheTouch t]\<rparr>))"

definition getPriority :: "tileset \<Rightarrow> nat \<Rightarrow> real" where
  "getPriority s t =
     (case parent (tiles s t) of
        Some p \<Rightarrow> if refine (tiles s p) = REPLACE then screenSpaceError (states s p)
                  else screenSpaceError (states s t)
      | None \<Rightarrow> screenSpaceError (states s t))"

definition loadTile :: "tileset \<Rightarrow> nat \<Rightarrow> frame_state \<Rightarrow> tileset" where
  "loadTile s t fs =
     (if touchedFrame (states s t) = frameNumber fs then s
      else if contentUnloaded (tiles s t) \<or> contentExpired (tiles s t) then
        (update_tile t (\<lambda>x. x\<lparr>priority := getPriority s t\<rparr>) s)
          \<lparr>requestedTiles := requestedTiles s @ [t]\<rparr>
      else s)"

text \<open>
  Every call site of \<open>touch\<close> in the traversals is followed by the assignment
  \<open>tile._touchedFrame = frameState.frameNumber\<close>.
\<close>

definition stampTouched :: "tileset \<Rightarrow> nat \<Rightarrow> frame_state \<Rightarrow> tileset" where
  "stampTouched s t fs = update_tile t (\<lambda>x. x\<lparr>touchedFrame := frameNumber fs\<rparr>) s"

text \<open>
  The three statements \<open>loadTile(..); touch(..); tile._touchedFrame = ..\<close> in which the
  base traversal asks for a tile.
\<close>

definition loadAndTouch :: "tileset \<Rightarrow> nat \<Rightarrow> frame_state \<Rightarrow> tileset" where
  "loadAndTouch s t fs = stampTouched (touch (loadTile s t fs) t fs) t fs"

definition visitTile :: "tileset \<Rightarrow> nat \<Rightarrow> frame_state \<Rightarrow> tileset" where
  "visitTile s t fs =
     (if visitedFrame (states s t) = frameNumber fs then s
      else
        (let s1 = (update_tile t
                     (\<lambda>x. x\<lparr>visitedFrame := frameNumber fs, selected := False,
                             finalResolution := False, ancestorWithContentAvailable := None\<rparr>) s)
                  \<lparr>statistics_visited := Suc (statistics_visited s)\<rparr>
         in case parent (tiles s1 t) of
              None \<Rightarrow> s1
            | Some p \<Rightarrow>
                update_tile t
                  (\<lambda>x. x\<lparr>ancestorWithContentAvailable :=
                            (if refine (tiles s1 p) = REPLACE \<and> contentAvailable (tiles s1 p)
                             then Some p
                             else ancestorWithContentAvailable (states s1 p))\<rparr>) s1))"

section \<open>Selection of one tile\<close>

text \<open>
  \<open>selectTile\<close> reads \<open>tile.content.featurePropertiesDirty\<close>; the flag is kept on the
  tile, a tile with available content having a content object.
\<close>

definition passesContentVisibility :: "tileset \<Rightarrow> nat \<Rightarrow> frame_state \<Rightarrow> bool" where
  "passesContentVisibility s t fs \<longleftrightarrow>
     contentAvailable (tiles s t) \<and>
     (visibilityPlaneMask (states s t) = MASK_INSIDE \<or> contentVisibility fs t \<noteq> OUTSIDE)"

definition selectTile :: "tileset \<Rightarrow> nat \<Rightarrow> frame_state \<Rightarrow> tileset" where
  "selectTile s t fs =
     (if passesContentVisibility s t fs then
        (let s1 = s\<lparr>selectedTiles := selectedTiles s @ [t]\<rparr>;
             s2 = (if featurePropertiesDirty (states s1 t) then
                     (update_tile t (\<lambda>x. x\<lparr>featurePropertiesDirty := False, lastStyleTime := 0\<rparr>) s1)
                       \<lparr>selectedTilesToStyle := selectedTilesToStyle s1 @ [t]\<rparr>
                   else if lastSelectedFrameNumber (states s1 t) \<noteq> frameNumber fs - 1 then
                     s1\<lparr>selectedTilesToStyle := selectedTilesToStyle s1 @ [t]\<rparr>
                   else s1)
         in update_tile t (\<lambda>x. x\<lparr>lastSelectedFrameNumber := frameNumber fs\<rparr>) s2)
      else s)"

fun selectTiles_each :: "nat list \<Rightarrow> frame_state \<Rightarrow> tileset \<Rightarrow> tileset" where
  "selectTiles_each [] fs s = s"
| "selectTiles_each (t # ts) fs s = selectTiles_each ts fs (selectTile s t fs)"

section \<open>Visibility and update pass\<close>

definition updateTile :: "tileset \<Rightarrow> nat \<Rightarrow> frame_state \<Rightarrow> bool \<times> tileset" where
  "updateTile s t fs =
     (let parentVisibilityPlaneMask =
            (case parent (tiles s t) of
               Some p \<Rightarrow> visibilityPlaneMask (states s p)
             | None \<Rightarrow> MASK_INDETERMINATE);
          s1 = update_tile t (\<lambda>x. x\<lparr>distanceToCamera := distanceToTile fs t,
                                     centerZDepth := distanceToTileCenter fs t\<rparr>) s;
          s2 = update_tile t
                 (\<lambda>x. x\<lparr>screenSpaceError :=
                           getScreenSpaceError s1 (geometricError (tiles s1 t)) t fs\<rparr>) s1;
          m = visibility fs t parentVisibilityPlaneMask;
          visible = (m \<noteq> MASK_OUTSIDE \<and> insideViewerRequestVolume fs t)
      in (visible,
          update_tile t (\<lambda>x. x\<lparr>visibilityPlaneMask := (if visible then m else MASK_OUTSIDE)\<rparr>) s2))"

fun updateChildren_loop :: "nat list \<Rightarrow> frame_state \<Rightarrow> bool \<times> tileset \<Rightarrow> bool \<times> tileset" where
  "updateChildren_loop [] fs (anyVisible, s) = (anyVisible, s)"
| "updateChildren_loop (c # cs) fs (anyVisible, s) =
     (let (childVisible, s1) = updateTile s c fs
      in updateChildren_loop cs fs (anyVisible \<or> childVisible, s1))"

definition updateChildren :: "tileset \<Rightarrow> nat \<Rightarrow> frame_state \<Rightarrow> bool \<times> tileset" where
  "updateChildren s t fs = updateChildren_loop (children (tiles s t)) fs (False, s)"

definition getVisibility :: "tileset \<Rightarrow> nat \<Rightarrow> real \<Rightarrow> frame_state \<Rightarrow> bool \<times> tileset" where
  "getVisibility s t mse fs =
     (if visibilityPlaneMask (states s t) = MASK_OUTSIDE then (False, s)
      else if hasTilesetContent (tiles s t) \<and> contentExpired (tiles s t) then (False, s)
      else if (case parent (tiles s t) of
                 Some p \<Rightarrow> refine (tiles s p) = ADD \<and>
                           getScreenSpaceError s (geometricError (tiles s p)) t fs \<le> mse
               | None \<Rightarrow> False) then (False, s)
      else
        (let replace = (refine (tiles s t) = REPLACE);
             useOptimization = (optimChildrenWithinParent (tiles s t) = USE_OPTIMIZATION);
             meetsScreenSpaceError = (screenSpaceError (states s t) \<le> mse);
             (anyChildrenVisible, s1) =
               (if (\<not> meetsScreenSpaceError \<or> useOptimization) \<and> children (tiles s t) \<noteq> []
                then updateChildren s t fs else (True, s))
         in if replace \<and> useOptimization \<and> \<not> anyChildrenVisible then
              (False, s1\<lparr>statistics_numberOfTilesCulledWithChildrenUnion :=
                           Suc (statistics_numberOfTilesCulledWithChildrenUnion s1)\<rparr>)
            else (True, s1)))"

definition updateVisibility :: "tileset \<Rightarrow> nat \<Rightarrow> real \<Rightarrow> frame_state \<Rightarrow> bool \<times> tileset" where
  "updateVisibility s t mse fs =
     (if touchedFrame (states s t) = frameNumber fs
      then (visibilityPlaneMask (states s t) \<noteq> MASK_OUTSIDE, s)
      else
        (let (visible, s1) = getVisibility s t mse fs;
             s2 = update_tile t
                    (\<lambda>x. x\<lparr>visibilityPlaneMask :=
                              (if visible then visibilityPlaneMask (states s1 t) else MASK_OUTSIDE)\<rparr>) s1
         in (visibilityPlaneMask (states s2 t) \<noteq> MASK_OUTSIDE, s2)))"

section \<open>Base traversal\<close>

text \<open>
  The \<open>while (stack.length > 0)\<close> loops run on fuel: one unit for every tile popped, and
  \<open>None\<close> when it runs out. A stack is a list with its top at the head, so \<open>push\<close> is
  \<open>#\<close>; the lists of the tileset grow at the end, as \<open>push\<close> makes them.
\<close>

definition executeInternalBaseTraversal_child ::
  "nat \<Rightarrow> real \<Rightarrow> frame_state \<Rightarrow> nat list \<times> tileset \<Rightarrow> nat list \<times> tileset" where
  "executeInternalBaseTraversal_child child mse fs = (\<lambda>(stack, s).
     (let s1 = snd (updateVisibility s child mse fs);
          s4 = loadAndTouch s1 child fs
      in (child # stack, s4)))"

fun executeInternalBaseTraversal_children ::
  "nat list \<Rightarrow> real \<Rightarrow> frame_state \<Rightarrow> nat list \<times> tileset \<Rightarrow> nat list \<times> tileset" where
  "executeInternalBaseTraversal_children [] mse fs acc = acc"
| "executeInternalBaseTraversal_children (child # cs) mse fs acc =
     executeInternalBaseTraversal_children cs mse fs
       (executeInternalBaseTraversal_child child mse fs acc)"

text \<open>One turn of the loop of \<open>executeInternalBaseTraversal\<close>, for the tile just popped.\<close>

definition executeInternalBaseTraversal_visit ::
  "tileset \<Rightarrow> nat \<Rightarrow> real \<Rightarrow> frame_state \<Rightarrow> nat list \<Rightarrow> bool \<Rightarrow> nat list \<times> bool \<times> tileset" where
  "executeInternalBaseTraversal_visit s tile mse fs stack allDescendantsLoaded =
     (let cs = children (tiles s tile);
          traverse = ((hasEmptyContent (tiles s tile) \<or> hasTilesetContent (tiles s tile)) \<and>
                      cs \<noteq> [] \<and> screenSpaceError (states s tile) > mse);
          allDescendantsLoaded1 =
            (if \<not> traverse \<and> \<not> contentAvailable (tiles s tile) then False
             else allDescendantsLoaded);
          (stack1, s1) =
            (if traverse then executeInternalBaseTraversal_children cs mse fs (stack, s)
             else (stack, s))
      in (stack1, allDescendantsLoaded1, s1))"

fun executeInternalBaseTraversal_loop ::
  "nat \<Rightarrow> real \<Rightarrow> frame_state \<Rightarrow> nat list \<Rightarrow> bool \<Rightarrow> tileset \<Rightarrow> (bool \<times> tileset) option" where
  "executeInternalBaseTraversal_loop fuel mse fs [] allDescendantsLoaded s =
     Some (allDescendantsLoaded, s)"
| "executeInternalBaseTraversal_loop 0 mse fs (tile # stack) allDescendantsLoaded s = None"
| "executeInternalBaseTraversal_loop (Suc fuel) mse fs (tile # stack) allDescendantsLoaded s =
     (case executeInternalBaseTraversal_visit s tile mse fs stack allDescendantsLoaded of
        (stack1, allDescendantsLoaded1, s1) \<Rightarrow>
          executeInternalBaseTraversal_loop fuel mse fs stack1 allDescendantsLoaded1 s1)"

definition executeInternalBaseTraversal ::
  "nat \<Rightarrow> tileset \<Rightarrow> nat \<Rightarrow> real \<Rightarrow> frame_state \<Rightarrow> (bool \<times> tileset) option" where
  "executeInternalBaseTraversal fuel s root0 mse fs =
     executeInternalBaseTraversal_loop fuel mse fs [root0] True s"

text \<open>The body of the loop over the children in \<open>executeBaseTraversal\<close>.\<close>

definition executeBaseTraversal_child ::
  "nat \<Rightarrow> real \<Rightarrow> frame_state \<Rightarrow> bool \<Rightarrow> bool \<Rightarrow> nat \<Rightarrow> bool \<times> nat list \<times> tileset
     \<Rightarrow> (bool \<times> nat list \<times> tileset) option" where
  "executeBaseTraversal_child fuel mse fs replace add child = (\<lambda>(refines0, stack, s).
     (let (visible, s1) = updateVisibility s child mse fs;
          s2 = (if replace \<or> (add \<and> visible)
                then loadAndTouch s1 child fs
                else s1)
      in case (if refines0 \<and> replace then
                 (if hasEmptyContent (tiles s2 child) \<or> hasTilesetContent (tiles s2 child)
                  then executeInternalBaseTraversal fuel s2 child mse fs
                  else Some (contentAvailable (tiles s2 child), s2))
               else Some (refines0, s2)) of
           None \<Rightarrow> None
         | Some (refines1, s3) \<Rightarrow>
             Some (refines1, (if visible then child # stack else stack), s3)))"

fun executeBaseTraversal_children ::
  "nat \<Rightarrow> real \<Rightarrow> frame_state \<Rightarrow> bool \<Rightarrow> bool \<Rightarrow> nat list \<Rightarrow> bool \<times> nat list \<times> tileset
     \<Rightarrow> (bool \<times> nat list \<times> tileset) option" where
  "executeBaseTraversal_children fuel mse fs replace add [] acc = Some acc"
| "executeBaseTraversal_children fuel mse fs replace add (child # cs) acc =
     (case executeBaseTraversal_child fuel mse fs replace add child acc of
        None \<Rightarrow> None
      | Some acc1 \<Rightarrow> executeBaseTraversal_children fuel mse fs replace add cs acc1)"

text \<open>
  The end of a turn of the loop of \<open>executeBaseTraversal\<close>, after the children: the tile
  records whether it refines, becomes a leaf if it does not while its parent does, and
  is desired if it is additive with content.
\<close>

definition executeBaseTraversal_finish ::
  "tileset \<Rightarrow> nat \<Rightarrow> bool \<Rightarrow> bool \<Rightarrow> bool \<Rightarrow> bool \<Rightarrow> bool \<Rightarrow> bool \<Rightarrow> bool \<times> tileset" where
  "executeBaseTraversal_finish s2 tile add traverse replacementWithContent parentRefines
       refines1 fullyRefined =
     (let s3 = update_tile tile (\<lambda>x. x\<lparr>refines := refines1\<rparr>) s2;
          leaf = (\<not> refines1 \<and> parentRefines \<and> replacementWithContent);
          fullyRefined1 = (if leaf then fullyRefined \<and> \<not> traverse else fullyRefined);
          s4 = (if leaf then s3\<lparr>leaves := leaves s3 @ [tile]\<rparr> else s3);
          s5 = (if add \<and> contentAvailable (tiles s4 tile)
                then s4\<lparr>desiredTiles := desiredTiles s4 @ [tile]\<rparr> else s4)
      in (fullyRefined1, s5))"

text \<open>
  One turn of the loop of \<open>executeBaseTraversal\<close>, for the tile just popped; the fuel is
  for the internal traversals that the turn starts.
\<close>

definition executeBaseTraversal_visit ::
  "nat \<Rightarrow> tileset \<Rightarrow> nat \<Rightarrow> real \<Rightarrow> frame_state \<Rightarrow> nat list \<Rightarrow> bool
     \<Rightarrow> (nat list \<times> bool \<times> tileset) option" where
  "executeBaseTraversal_visit fuel s tile mse fs stack fullyRefined =
     (let add = (refine (tiles s tile) = ADD);
          replace = (refine (tiles s tile) = REPLACE);
          s1 = visitTile s tile fs;
          cs = children (tiles s1 tile);
          traverse = (cs \<noteq> [] \<and> screenSpaceError (states s1 tile) > mse);
          replacementWithContent = (replace \<and> contentAvailable (tiles s1 tile));
          parentRefines = (case parent (tiles s1 tile) of
                             None \<Rightarrow> True
                           | Some p \<Rightarrow> refines (states s1 p))
      in case (if traverse
               then executeBaseTraversal_children fuel mse fs replace add cs
                      (traverse \<and> parentRefines, stack, s1)
               else Some (traverse \<and> parentRefines, stack, s1)) of
           None \<Rightarrow> None
         | Some (refines1, stack1, s2) \<Rightarrow>
             (case executeBaseTraversal_finish s2 tile add traverse replacementWithContent
                     parentRefines refines1 fullyRefined of
                (fullyRefined1, s5) \<Rightarrow> Some (stack1, fullyRefined1, s5)))"

fun executeBaseTraversal_loop ::
  "nat \<Rightarrow> real \<Rightarrow> frame_state \<Rightarrow> nat list \<Rightarrow> bool \<Rightarrow> tileset \<Rightarrow> (bool \<times> tileset) option" where
  "executeBaseTraversal_loop fuel mse fs [] fullyRefined s = Some (fullyRefined, s)"
| "executeBaseTraversal_loop 0 mse fs (tile # stack) fullyRefined s = None"
| "executeBaseTraversal_loop (Suc fuel) mse fs (tile # stack) fullyRefined s =
     (case executeBaseTraversal_visit fuel s tile mse fs stack fullyRefined of
        None \<Rightarrow> None
      | Some (stack1, fullyRefined1, s1) \<Rightarrow>
          executeBaseTraversal_loop fuel mse fs stack1 fullyRefined1 s1)"

definition executeBaseTraversal ::
  "nat \<Rightarrow> tileset \<Rightarrow> nat \<Rightarrow> real \<Rightarrow> frame_state \<Rightarrow> (bool \<times> tileset) option" where
  "executeBaseTraversal fuel s root0 mse fs =
     executeBaseTraversal_loop fuel mse fs [root0] True (s\<lparr>leaves := []\<rparr>)"

definition selectBaseTraversal ::
  "nat \<Rightarrow> tileset \<Rightarrow> nat \<Rightarrow> frame_state \<Rightarrow> tileset option" where
  "selectBaseTraversal fuel s root0 fs =
     (case executeBaseTraversal fuel s root0 (maximumScreenSpaceError s) fs of
        None \<Rightarrow> None
      | Some (fullyRefined, s1) \<Rightarrow>
          (let s2 = selectTiles_each (leaves s1) fs s1
           in Some (selectTiles_each (desiredTiles s2) fs s2)))"

section \<open>Skip traversal\<close>

definition reachedSkippingThreshold :: "tileset \<Rightarrow> nat \<Rightarrow> bool" where
  "reachedSkippingThreshold s t =
     (let skipLevels1 = (if skipLevelOfDetail s then skipLevels s else 0);
          skipScreenSpaceErrorFactor1 =
            (if skipLevelOfDetail s then skipScreenSpaceErrorFactor s else 1)
      in \<not> immediatelyLoadDesiredLevelOfDetail s \<and>
         contentUnloaded (tiles s t) \<and>
         (case ancestorWithContentAvailable (states s t) of
            None \<Rightarrow> False
          | Some a \<Rightarrow>
              a \<noteq> t \<and>
              screenSpaceError (states s t)
                < screenSpaceError (states s a) / skipScreenSpaceErrorFactor1 \<and>
              depth (tiles s t) > depth (tiles s a) + skipLevels1))"

fun executeInternalSkipTraversal_children ::
  "nat list \<Rightarrow> real \<Rightarrow> frame_state \<Rightarrow> nat list \<times> tileset \<Rightarrow> nat list \<times> tileset" where
  "executeInternalSkipTraversal_children [] mse fs (stack, s) = (stack, s)"
| "executeInternalSkipTraversal_children (child # cs) mse fs (stack, s) =
     (let (visible, s1) = updateVisibility s child mse fs
      in executeInternalSkipTraversal_children cs mse fs
           ((if visible then child # stack else stack), s1))"

fun executeInternalSkipTraversal_siblings ::
  "nat list \<Rightarrow> frame_state \<Rightarrow> tileset \<Rightarrow> tileset" where
  "executeInternalSkipTraversal_siblings [] fs s = s"
| "executeInternalSkipTraversal_siblings (sibling # sibs) fs s =
     executeInternalSkipTraversal_siblings sibs fs
       (loadAndTouch s sibling fs)"

text \<open>
  One turn of the loop of \<open>executeInternalSkipTraversal\<close>, for the tile just popped.
  With \<open>loadSiblings\<close> the source walks \<open>parent.children\<close> up to the length of the
  tile's own \<open>children\<close>: a tile without parent, or with more children than siblings,
  ends in a TypeError.
\<close>

definition executeInternalSkipTraversal_visit ::
  "tileset \<Rightarrow> nat \<Rightarrow> real \<Rightarrow> frame_state \<Rightarrow> nat list \<Rightarrow> nat list
     \<Rightarrow> error + (nat list \<times> nat list \<times> tileset)" where
  "executeInternalSkipTraversal_visit s tile mse fs stack queue =
     (let add = (refine (tiles s tile) = ADD);
          replace = (refine (tiles s tile) = REPLACE);
          s1 = visitTile s tile fs;
          cs = children (tiles s1 tile);
          traverse = ((cs \<noteq> [] \<and> screenSpaceError (states s1 tile) > mse) \<or>
                      \<not> reachedSkippingThreshold s1 tile);
          s2 = (if add then
                  (let a = stampTouched (loadTile (touch s1 tile fs) tile fs) tile fs
                   in if contentAvailable (tiles a tile)
                      then a\<lparr>desiredTiles := desiredTiles a @ [tile]\<rparr> else a)
                else s1);
          (stack1, s3) =
            (if traverse then
               executeInternalSkipTraversal_children cs mse fs
                 (stack, stampTouched (touch s2 tile fs) tile fs)
             else (stack, s2))
      in if \<not> traverse \<and> replace then
           (case (if loadSiblings s3 then
                    (case parent (tiles s3 tile) of
                       None \<Rightarrow> Inl TypeError
                     | Some p \<Rightarrow>
                         if length cs > length (children (tiles s3 p)) then Inl TypeError
                         else Inr (executeInternalSkipTraversal_siblings
                                     (take (length cs) (children (tiles s3 p))) fs s3))
                  else Inr (loadAndTouch s3 tile fs)) of
              Inl e \<Rightarrow> Inl e
            | Inr s4 \<Rightarrow>
                Inr (stack1, queue @ [tile], s4\<lparr>desiredTiles := desiredTiles s4 @ [tile]\<rparr>))
         else Inr (stack1, queue, s3))"

fun executeInternalSkipTraversal_loop ::
  "nat \<Rightarrow> real \<Rightarrow> frame_state \<Rightarrow> nat list \<Rightarrow> nat list \<Rightarrow> tileset
     \<Rightarrow> (error + (nat list \<times> tileset)) option" where
  "executeInternalSkipTraversal_loop fuel mse fs [] queue s = Some (Inr (queue, s))"
| "executeInternalSkipTraversal_loop 0 mse fs (tile # stack) queue s = None"
| "executeInternalSkipTraversal_loop (Suc fuel) mse fs (tile # stack) queue s =
     (case executeInternalSkipTraversal_visit s tile mse fs stack queue of
        Inl e \<Rightarrow> Some (Inl e)
      | Inr (stack1, queue1, s1) \<Rightarrow>
          executeInternalSkipTraversal_loop fuel mse fs stack1 queue1 s1)"

definition executeInternalSkipTraversal ::
  "nat \<Rightarrow> tileset \<Rightarrow> nat \<Rightarrow> real \<Rightarrow> nat list \<Rightarrow> frame_state
     \<Rightarrow> (error + (nat list \<times> tileset)) option" where
  "executeInternalSkipTraversal fuel s root0 mse queue fs =
     executeInternalSkipTraversal_loop fuel mse fs [root0] queue s"

text \<open>
  \<open>selectSkipTraversal\<close> and \<open>selectBaseAndSkipTraversal\<close> both end with
  \<open>markDesiredTilesForSelection\<close>, which reads the undeclared variable \<open>original\<close>, and
  with a call of \<open>traverseAndSelect\<close>, whose only definition is inside a comment. A call
  of either therefore cannot return normally. The model keeps that much and no more: it
  gives the ReferenceError that ends the call at the latest. It does not run the passes
  that come before it, so it keeps none of what they write to the tiles and lists, and
  it does not tell when an earlier exception ends the call instead
  (\<open>selectSkipTraversal\<close> hands \<open>executeSkipTraversal\<close> four arguments for its three
  parameters, so that a tile stands for the budget and a number for the frame state,
  which can end in a TypeError). \<open>selectTiles\<close> never reaches either function.
\<close>

definition selectSkipTraversal ::
  "nat \<Rightarrow> tileset \<Rightarrow> nat \<Rightarrow> frame_state \<Rightarrow> (error + tileset) option" where
  "selectSkipTraversal fuel s root0 fs = Some (Inl ReferenceError)"

definition selectBaseAndSkipTraversal ::
  "nat \<Rightarrow> tileset \<Rightarrow> nat \<Rightarrow> frame_state \<Rightarrow> (error + tileset) option" where
  "selectBaseAndSkipTraversal fuel s root0 fs = Some (Inl ReferenceError)"

section \<open>The entry point\<close>

datatype traversal = BaseTraversal | SkipTraversal | BaseAndSkipTraversal

text \<open>
  \<open>selectTiles\<close> in two parts. \<open>selectTiles_begin\<close> is the function up to and including
  the assignment \<open>tileset._skipLevelOfDetail = false\<close>: it gives \<open>Inl\<close> of the final state
  when the function returns early, and \<open>Inr\<close> of the state that reaches the choice of a
  traversal. \<open>chosenTraversal\<close> is the \<open>if\<close> chain that makes the choice.
\<close>

definition selectTiles_reset :: "tileset \<Rightarrow> tileset" where
  "selectTiles_reset s =
     s\<lparr>desiredTiles := [], selectedTiles := [], requestedTiles := [],
       selectedTilesToStyle := [], hasMixedContent := False,
       cache := cache s @ [CacheReset]\<rparr>"

text \<open>The value of the local variable \<open>rootVisible\<close>, with the state its computation leaves.\<close>

definition selectTiles_rootVisible :: "tileset \<Rightarrow> frame_state \<Rightarrow> bool \<times> tileset" where
  "selectTiles_rootVisible s fs =
     (let (visible1, s1) = updateTile s (rootTile s) fs
      in if visible1 then updateVisibility s1 (rootTile s) (maximumScreenSpaceError s) fs
         else (False, s1))"

definition selectTiles_begin :: "tileset \<Rightarrow> frame_state \<Rightarrow> tileset + tileset" where
  "selectTiles_begin s fs =
     (if debugFreezeFrame s then Inl s
      else
        (let mse = maximumScreenSpaceError s;
             s1 = selectTiles_reset s;
             root0 = rootTile s1;
             (rootVisible, s3) = selectTiles_rootVisible s1 fs
         in if \<not> rootVisible then Inl s3
            else if getScreenSpaceError s3 (tileset_geometricError s3) root0 fs \<le> mse then Inl s3
            else
              (let s4 = loadAndTouch s3 root0 fs
               in Inr (s4\<lparr>priv_skipLevelOfDetail := False\<rparr>))))"

definition chosenTraversal :: "tileset \<Rightarrow> traversal" where
  "chosenTraversal s =
     (if \<not> priv_skipLevelOfDetail s then BaseTraversal
      else if immediatelyLoadDesiredLevelOfDetail s then SkipTraversal
      else BaseAndSkipTraversal)"

fun runTraversal ::
  "traversal \<Rightarrow> nat \<Rightarrow> tileset \<Rightarrow> nat \<Rightarrow> frame_state \<Rightarrow> (error + tileset) option" where
  "runTraversal BaseTraversal fuel s root0 fs = map_option Inr (selectBaseTraversal fuel s root0 fs)"
| "runTraversal SkipTraversal fuel s root0 fs = selectSkipTraversal fuel s root0 fs"
| "runTraversal BaseAndSkipTraversal fuel s root0 fs = selectBaseAndSkipTraversal fuel s root0 fs"

definition selectTiles :: "nat \<Rightarrow> tileset \<Rightarrow> frame_state \<Rightarrow> (error + tileset) option" where
  "selectTiles fuel s fs =
     (case selectTiles_begin s fs of
        Inl s1 \<Rightarrow> Some (Inr s1)
      | Inr s1 \<Rightarrow> runTraversal (chosenTraversal s1) fuel s1 (rootTile s1) fs)"

text \<open>The traversal that a call of \<open>selectTiles\<close> reaches, if it reaches one.\<close>

definition dispatchedTraversal :: "tileset \<Rightarrow> frame_state \<Rightarrow> traversal option" where
  "dispatchedTraversal s fs =
     (case selectTiles_begin s fs of
        Inl s1 \<Rightarrow> None
      | Inr s1 \<Rightarrow> Some (chosenTraversal s1))"

section \<open>Auxiliary notions for the statements\<close>

text \<open>
  The screen-space error that \<open>getScreenSpaceError\<close> computes for a geometric error once
  the tile stands at its distance of this frame, as it does after \<open>updateTile\<close>.
\<close>

definition frameScreenSpaceError :: "tileset \<Rightarrow> real \<Rightarrow> nat \<Rightarrow> frame_state \<Rightarrow> real" where
  "frameScreenSpaceError s ge t fs =
     getScreenSpaceError (update_tile t (\<lambda>x. x\<lparr>distanceToCamera := distanceToTile fs t\<rparr>) s) ge t fs"

section \<open>Example tilesets\<close>

definition example_tile :: tile where
  "example_tile =
     \<lparr>parent = None, children = [], refine = REPLACE, geometricError = 0,
      contentAvailable = True, contentUnloaded = False, contentExpired = False,
      hasEmptyContent = False, hasTilesetContent = False,
      optimChildrenWithinParent = NOT_COMPUTED, depth = 0\<rparr>"

text \<open>The fields of a tile that no frame has touched.\<close>

definition example_state :: tile_state where
  "example_state =
     \<lparr>featurePropertiesDirty = False, lastStyleTime = 0, distanceToCamera = 0,
      centerZDepth = 0, screenSpaceError = 0, visibilityPlaneMask = 0, touchedFrame = 0,
      visitedFrame = 0, selectedFrame = 0, lastSelectedFrameNumber = 0, selected = False,
      finalResolution = False, ancestorWithContentAvailable = None, refines = False,
      priority = 0\<rparr>"

text \<open>
  A perspective view in frame 1: every tile at distance 1, a drawing buffer of height 2
  and \<open>sseDenominator\<close> 1, so that a geometric error \<open>g\<close> has screen-space error \<open>2 * g\<close>.
  Every tile intersects the frustum, and so does its content.
\<close>

definition example_frame :: frame_state where
  "example_frame =
     \<lparr>frameNumber = 1, mode = SCENE3D,
      camera_frustum =
        \<lparr>instanceofOrthographicFrustum = False, offCenterFrustum = None,
         ownPlanes = \<lparr>frustum_top = 0, frustum_bottom = 0, frustum_right = 0, frustum_left = 0\<rparr>,
         sseDenominator = 1\<rparr>,
      drawingBufferHeight = 2, drawingBufferWidth = 2,
      distanceToTile = (\<lambda>t. 1), distanceToTileCenter = (\<lambda>t. 1),
      visibility = (\<lambda>t m. MASK_INDETERMINATE), insideViewerRequestVolume = (\<lambda>t. True),
      contentVisibility = (\<lambda>t. INTERSECTING),
      fog = (\<lambda>d \<rho>. 1 - exp (- ((d * \<rho>) * (d * \<rho>))))\<rparr>"

text \<open>
  A tileset of geometric error \<open>g\<close> over the given tiles, with tile 0 as root, a budget
  of 16 and no skipping.
\<close>

definition example_tileset :: "real \<Rightarrow> (nat \<Rightarrow> tile) \<Rightarrow> tileset" where
  "example_tileset g ts =
     \<lparr>debugFreezeFrame = False, maximumScreenSpaceError = 16, tileset_geometricError = g,
      rootTile = 0, desiredTiles = [], selectedTiles = [], requestedTiles = [],
      selectedTilesToStyle = [], hasMixedContent = False, cache = [],
      priv_skipLevelOfDetail = False, skipLevelOfDetail = False,
      immediatelyLoadDesiredLevelOfDetail = False, skipLevels = 1,
      skipScreenSpaceErrorFactor = 16, loadSiblings = False, dynamicScreenSpaceError = False,
      dynamicScreenSpaceErrorComputedDensity = 0, dynamicScreenSpaceErrorFactor = 4,
      statistics_visited = 0, statistics_numberOfTilesCulledWithChildrenUnion = 0,
      leaves = [], tiles = ts, states = (\<lambda>t. example_state)\<rparr>"

text \<open>The root of geometric error 10 with one child whose content is not loaded.\<close>

definition root_and_child :: "nat \<Rightarrow> tile" where
  "root_and_child =
     (\<lambda>t. example_tile)
       (0 := example_tile\<lparr>children := [1], geometricError := 10\<rparr>,
        1 := example_tile\<lparr>parent := Some 0, contentAvailable := False, contentUnloaded := True\<rparr>)"

text \<open>
  The same two tiles in a tileset configured for the hybrid traversal: skipping is on
  and \<open>immediatelyLoadDesiredLevelOfDetail\<close> is off.
\<close>

definition skipping_tileset :: tileset where
  "skipping_tileset =
     (example_tileset 10 root_and_child)\<lparr>priv_skipLevelOfDetail := True, skipLevelOfDetail := True\<rparr>"

text \<open>A single additive tile whose content is not loaded.\<close>

definition additive_unloaded :: "nat \<Rightarrow> tile" where
  "additive_unloaded =
     (\<lambda>t. example_tile)
       (0 := example_tile\<lparr>refine := ADD, contentAvailable := False, contentUnloaded := True\<rparr>)"

text \<open>
  Two projections that forget what a part of the traversal may write. \<open>erase_view\<close>
  clears the fields written by the visibility and update pass; \<open>erase_traversal\<close>
  clears everything that the base traversal writes before it selects tiles. A
  function that leaves a projection as it was leaves every other field alone.
\<close>

definition erase_view :: "tileset \<Rightarrow> tileset" where
  "erase_view s =
     s\<lparr>statistics_numberOfTilesCulledWithChildrenUnion := 0,
       states := (\<lambda>u. (states s u)\<lparr>distanceToCamera := 0, centerZDepth := 0,
                                     screenSpaceError := 0, visibilityPlaneMask := 0\<rparr>)\<rparr>"

definition erase_traversal :: "tileset \<Rightarrow> tileset" where
  "erase_traversal s =
     s\<lparr>desiredTiles := [], requestedTiles := [], cache := [], statistics_visited := 0,
       statistics_numberOfTilesCulledWithChildrenUnion := 0, leaves := [],
       states := (\<lambda>u. (states s u)\<lparr>distanceToCamera := 0, centerZDepth := 0,
                                     screenSpaceError := 0, visibilityPlaneMask := 0,
                                     touchedFrame := 0, visitedFrame := 0, selected := False,
                                     finalResolution := False,
                                     ancestorWithContentAvailable := None, refines := False,
                                     priority := 0\<rparr>)\<rparr>"

text \<open>
  A view in which every bounding volume lies wholly inside the frustum while the test
  of every content bounding volume answers \<open>OUTSIDE\<close>.
\<close>

definition enclosing_frame :: frame_state where
  "enclosing_frame =
     example_frame\<lparr>visibility := (\<lambda>t m. MASK_INSIDE), contentVisibility := (\<lambda>t. OUTSIDE)\<rparr>"

text \<open>
  The load requests of a frame are guarded by the touched stamp: no tile is requested
  twice, and every requested tile carries the stamp of the frame.
\<close>

definition requestsGuarded :: "frame_state \<Rightarrow> tileset \<Rightarrow> bool" where
  "requestsGuarded fs s \<longleftrightarrow>
     distinct (requestedTiles s) \<and>
     list_all (\<lambda>t. touchedFrame (states s t) = frameNumber fs) (requestedTiles s)"

text \<open>
  \<open>erase_loading\<close> clears what the walk over the children of a tile writes: the view
  fields, the touched stamps and priorities, the load requests and the cache log.
\<close>

definition erase_loading :: "tileset \<Rightarrow> tileset" where
  "erase_loading s =
     s\<lparr>requestedTiles := [], cache := [],
       statistics_numberOfTilesCulledWithChildrenUnion := 0,
       states := (\<lambda>u. (states s u)\<lparr>distanceToCamera := 0, centerZDepth := 0,
                                     screenSpaceError := 0, visibilityPlaneMask := 0,
                                     touchedFrame := 0, priority := 0\<rparr>)\<rparr>"

text \<open>
  A tile has been updated for the frame when it stands at its distance of the frame and
  its screen-space error is the one of its geometric error there.
\<close>

definition viewUpdated :: "frame_state \<Rightarrow> tileset \<Rightarrow> nat \<Rightarrow> bool" where
  "viewUpdated fs s t \<longleftrightarrow>
     distanceToCamera (states s t) = distanceToTile fs t \<and>
     screenSpaceError (states s t) = frameScreenSpaceError s (geometricError (tiles s t)) t fs"

text \<open>A root with one child, all content available and no geometric error anywhere.\<close>

definition flat_tiles :: "nat \<Rightarrow> tile" where
  "flat_tiles =
     (\<lambda>t. example_tile)
       (0 := example_tile\<lparr>children := [1]\<rparr>, 1 := example_tile\<lparr>parent := Some 0\<rparr>)"

text \<open>
  The view of \<open>example_frame\<close>, except that the test of every content bounding volume
  answers \<open>OUTSIDE\<close> while the bounding volume of the tile still intersects the frustum.
\<close>

definition content_outside_frame :: frame_state where
  "content_outside_frame = example_frame\<lparr>contentVisibility := (\<lambda>t. OUTSIDE)\<rparr>"






text \<open>
  The value of the local variable \<open>parentRefines\<close> of \<open>executeBaseTraversal\<close> for a tile:
  the tile has no parent, or the \<open>_refines\<close> flag of its parent is set.
\<close>

definition parentRefines :: "tileset \<Rightarrow> nat \<Rightarrow> bool" where
  "parentRefines s t =
     (case parent (tiles s t) of None \<Rightarrow> True | Some p \<Rightarrow> refines (states s p))"





text \<open>
  The arithmetic of JavaScript numbers. Every operation on two numbers gives the exact
  result rounded to the nearest value with 53 significant bits, ties to the even one
  (IEEE 754 binary64, as ECMAScript prescribes). \<open>binary64\<close> is that rounding on the
  reals. Its exponent is not bounded: an operation that overflows to \<open>Infinity\<close>, gives
  \<open>NaN\<close> or underflows below the normal range \<open>2 powr -1022\<close> has no description here.
\<close>

definition roundTiesToEven :: "real \<Rightarrow> int" where
  "roundTiesToEven x =
     (if frac x < 1 / 2 then \<lfloor>x\<rfloor>
      else if 1 / 2 < frac x then \<lfloor>x\<rfloor> + 1
      else if even \<lfloor>x\<rfloor> then \<lfloor>x\<rfloor> else \<lfloor>x\<rfloor> + 1)"

definition binary64 :: "real \<Rightarrow> real" where
  "binary64 x =
     sgn x * (let ulp = 2 powr (of_int \<lfloor>log 2 \<bar>x\<bar>\<rfloor> - 52)
              in of_int (roundTiesToEven (\<bar>x\<bar> / ulp)) * ulp)"

text \<open>
  \<open>getScreenSpaceError\<close> once more, with the rounding of its arithmetic written out:
  \<open>rnd\<close> is applied to the result of every operation and to the constant \<open>EPSILON7\<close>,
  which the source writes as a decimal literal. The result of \<open>CesiumMath.fog\<close> is taken
  as the frame state gives it. With the identity for \<open>rnd\<close> this is \<open>getScreenSpaceError\<close>.
\<close>

definition getScreenSpaceError_rounded ::
  "(real \<Rightarrow> real) \<Rightarrow> tileset \<Rightarrow> real \<Rightarrow> nat \<Rightarrow> frame_state \<Rightarrow> real" where
  "getScreenSpaceError_rounded rnd s ge t fs =
     (if ge = 0 then 0
      else if mode fs = SCENE2D \<or> instanceofOrthographicFrustum (camera_frustum fs) then
        (let fr = (case offCenterFrustum (camera_frustum fs) of
                     Some oc \<Rightarrow> oc
                   | None \<Rightarrow> ownPlanes (camera_frustum fs));
             pixelSize = rnd (max (rnd (frustum_top fr - frustum_bottom fr))
                                  (rnd (frustum_right fr - frustum_left fr))
                                / max (drawingBufferWidth fs) (drawingBufferHeight fs))
         in rnd (ge / pixelSize))
      else
        (let distance = max (distanceToCamera (states s t)) (rnd EPSILON7);
             err = rnd (rnd (ge * drawingBufferHeight fs)
                        / rnd (distance * sseDenominator (camera_frustum fs)))
         in if dynamicScreenSpaceError s
            then rnd (err - rnd (fog fs distance (dynamicScreenSpaceErrorComputedDensity s)
                                   * dynamicScreenSpaceErrorFactor s))
            else err))"

text \<open>
  The tileset of the examples with the dynamic screen-space error switched on, at
  density 1 and with the factor 4 of the examples.
\<close>

definition foggy_tileset :: tileset where
  "foggy_tileset =
     (example_tileset 10 root_and_child)
       \<lparr>dynamicScreenSpaceError := True, dynamicScreenSpaceErrorComputedDensity := 1\<rparr>"

section \<open>The frozen frame\<close>

text \<open>
  C10. With \<open>debugFreezeFrame\<close> set, \<open>selectTiles\<close> returns at once and the whole state
  is as it was: the lists of the tileset, \<open>hasMixedContent\<close> and every field of every
  tile, so the selection of the frame before stays.
\<close>

theorem selectTiles_debugFreezeFrame:
  "debugFreezeFrame s \<Longrightarrow> selectTiles fuel s fs = Some (Inr s)"
  by (simp add: selectTiles_def selectTiles_begin_def)

theorem selectTiles_debugFreezeFrame_witness:
  "debugFreezeFrame ((example_tileset 10 root_and_child)\<lparr>debugFreezeFrame := True, selectedTiles := [0]\<rparr>) \<and>
   selectTiles 0 ((example_tileset 10 root_and_child)\<lparr>debugFreezeFrame := True, selectedTiles := [0]\<rparr>)
       example_frame
     = Some (Inr ((example_tileset 10 root_and_child)\<lparr>debugFreezeFrame := True, selectedTiles := [0]\<rparr>))"
  using selectTiles_debugFreezeFrame
          [of "(example_tileset 10 root_and_child)\<lparr>debugFreezeFrame := True, selectedTiles := [0]\<rparr>"
              0 example_frame]
  by (simp add: example_tileset_def)

section \<open>Unfolding the model and the examples\<close>

lemmas example_defs =
  example_tileset_def example_frame_def example_tile_def example_state_def root_and_child_def
  skipping_tileset_def additive_unloaded_def

lemmas model_defs =
  selectTiles_def selectTiles_begin_def selectTiles_reset_def selectTiles_rootVisible_def
  dispatchedTraversal_def chosenTraversal_def
  updateTile_def updateVisibility_def getVisibility_def updateChildren_def
  getScreenSpaceError_def update_tile_def touch_def loadTile_def stampTouched_def loadAndTouch_def
  getPriority_def visitTile_def selectTile_def passesContentVisibility_def
  selectBaseTraversal_def executeBaseTraversal_def executeInternalBaseTraversal_def
  executeBaseTraversal_visit_def executeInternalBaseTraversal_visit_def
  executeBaseTraversal_finish_def
  executeBaseTraversal_child_def executeInternalBaseTraversal_child_def
  EPSILON7_def MASK_OUTSIDE_def MASK_INDETERMINATE_def MASK_INSIDE_def Let_def

section \<open>The choice of the traversal\<close>

text \<open>
  C1. The assignment \<open>tileset._skipLevelOfDetail = false\<close> stands before the choice, so
  the base traversal is chosen whatever the configuration. On the tileset configured
  for the hybrid traversal the call runs the base traversal and selects the root.
\<close>

theorem selectTiles_ignores_skipLevelOfDetail:
  "priv_skipLevelOfDetail skipping_tileset \<and> skipLevelOfDetail skipping_tileset \<and>
   \<not> immediatelyLoadDesiredLevelOfDetail skipping_tileset \<and>
   dispatchedTraversal skipping_tileset example_frame = Some BaseTraversal \<and>
   map_option (map_sum id selectedTiles) (selectTiles (Suc (Suc 0)) skipping_tileset example_frame)
     = Some (Inr [0])"
  by (simp add: example_defs model_defs)

section \<open>Additive tiles in the skip traversal\<close>

text \<open>
  C7. \<open>executeInternalSkipTraversal\<close> touches an additive tile before it calls
  \<open>loadTile\<close>, which then finds the tile touched in this frame and returns: for the
  additive tile with unloaded content, not touched before, the call touches the tile
  and leaves \<open>requestedTiles\<close> empty.
\<close>

theorem executeInternalSkipTraversal_additive_not_requested:
  "refine (tiles (example_tileset 10 additive_unloaded) 0) = ADD \<and>
   contentUnloaded (tiles (example_tileset 10 additive_unloaded) 0) \<and>
   touchedFrame (states (example_tileset 10 additive_unloaded) 0) \<noteq> frameNumber example_frame \<and>
   map_option (map_sum id (\<lambda>(queue, s). (requestedTiles s, cache s, touchedFrame (states s 0))))
       (executeInternalSkipTraversal (Suc 0) (example_tileset 10 additive_unloaded) 0 16 []
          example_frame)
     = Some (Inr ([], [CacheTouch 0], 1))"
  by (simp add: example_defs model_defs executeInternalSkipTraversal_def
        executeInternalSkipTraversal_visit_def reachedSkippingThreshold_def)

section \<open>What the visibility pass leaves alone\<close>

lemma erase_view_fields:
  assumes "erase_view a = erase_view b"
  shows "tiles a = tiles b"
    and "debugFreezeFrame a = debugFreezeFrame b"
    and "maximumScreenSpaceError a = maximumScreenSpaceError b"
    and "tileset_geometricError a = tileset_geometricError b"
    and "rootTile a = rootTile b"
    and "desiredTiles a = desiredTiles b"
    and "selectedTiles a = selectedTiles b"
    and "requestedTiles a = requestedTiles b"
    and "selectedTilesToStyle a = selectedTilesToStyle b"
    and "hasMixedContent a = hasMixedContent b"
    and "cache a = cache b"
    and "priv_skipLevelOfDetail a = priv_skipLevelOfDetail b"
    and "immediatelyLoadDesiredLevelOfDetail a = immediatelyLoadDesiredLevelOfDetail b"
    and "dynamicScreenSpaceError a = dynamicScreenSpaceError b"
    and "dynamicScreenSpaceErrorComputedDensity a = dynamicScreenSpaceErrorComputedDensity b"
    and "dynamicScreenSpaceErrorFactor a = dynamicScreenSpaceErrorFactor b"
    and "statistics_visited a = statistics_visited b"
    and "leaves a = leaves b"
    and "touchedFrame (states a u) = touchedFrame (states b u)"
    and "visitedFrame (states a u) = visitedFrame (states b u)"
    and "refines (states a u) = refines (states b u)"
    and "featurePropertiesDirty (states a u) = featurePropertiesDirty (states b u)"
    and "lastSelectedFrameNumber (states a u) = lastSelectedFrameNumber (states b u)"
    and "ancestorWithContentAvailable (states a u) = ancestorWithContentAvailable (states b u)"
    and "selected (states a u) = selected (states b u)"
    and "priority (states a u) = priority (states b u)"
proof -
  have st: "(states (erase_view a)) u = (states (erase_view b)) u" using assms by simp
  show "tiles a = tiles b"
    using arg_cong[OF assms, of tiles] by (simp add: erase_view_def)
  show "debugFreezeFrame a = debugFreezeFrame b"
    using arg_cong[OF assms, of debugFreezeFrame] by (simp add: erase_view_def)
  show "maximumScreenSpaceError a = maximumScreenSpaceError b"
    using arg_cong[OF assms, of maximumScreenSpaceError] by (simp add: erase_view_def)
  show "tileset_geometricError a = tileset_geometricError b"
    using arg_cong[OF assms, of tileset_geometricError] by (simp add: erase_view_def)
  show "rootTile a = rootTile b"
    using arg_cong[OF assms, of rootTile] by (simp add: erase_view_def)
  show "desiredTiles a = desiredTiles b"
    using arg_cong[OF assms, of desiredTiles] by (simp add: erase_view_def)
  show "selectedTiles a = selectedTiles b"
    using arg_cong[OF assms, of selectedTiles] by (simp add: erase_view_def)
  show "requestedTiles a = requestedTiles b"
    using arg_cong[OF assms, of requestedTiles] by (simp add: erase_view_def)
  show "selectedTilesToStyle a = selectedTilesToStyle b"
    using arg_cong[OF assms, of selectedTilesToStyle] by (simp add: erase_view_def)
  show "hasMixedContent a = hasMixedContent b"
    using arg_cong[OF assms, of hasMixedContent] by (simp add: erase_view_def)
  show "cache a = cache b"
    using arg_cong[OF assms, of cache] by (simp add: erase_view_def)
  show "priv_skipLevelOfDetail a = priv_skipLevelOfDetail b"
    using arg_cong[OF assms, of priv_skipLevelOfDetail] by (simp add: erase_view_def)
  show "immediatelyLoadDesiredLevelOfDetail a = immediatelyLoadDesiredLevelOfDetail b"
    using arg_cong[OF assms, of immediatelyLoadDesiredLevelOfDetail] by (simp add: erase_view_def)
  show "dynamicScreenSpaceError a = dynamicScreenSpaceError b"
    using arg_cong[OF assms, of dynamicScreenSpaceError] by (simp add: erase_view_def)
  show "dynamicScreenSpaceErrorComputedDensity a = dynamicScreenSpaceErrorComputedDensity b"
    using arg_cong[OF assms, of dynamicScreenSpaceErrorComputedDensity]
    by (simp add: erase_view_def)
  show "dynamicScreenSpaceErrorFactor a = dynamicScreenSpaceErrorFactor b"
    using arg_cong[OF assms, of dynamicScreenSpaceErrorFactor] by (simp add: erase_view_def)
  show "statistics_visited a = statistics_visited b"
    using arg_cong[OF assms, of statistics_visited] by (simp add: erase_view_def)
  show "leaves a = leaves b"
    using arg_cong[OF assms, of leaves] by (simp add: erase_view_def)
  show "touchedFrame (states a u) = touchedFrame (states b u)"
    using arg_cong[OF st, of touchedFrame] by (simp add: erase_view_def)
  show "visitedFrame (states a u) = visitedFrame (states b u)"
    using arg_cong[OF st, of visitedFrame] by (simp add: erase_view_def)
  show "refines (states a u) = refines (states b u)"
    using arg_cong[OF st, of refines] by (simp add: erase_view_def)
  show "featurePropertiesDirty (states a u) = featurePropertiesDirty (states b u)"
    using arg_cong[OF st, of featurePropertiesDirty] by (simp add: erase_view_def)
  show "lastSelectedFrameNumber (states a u) = lastSelectedFrameNumber (states b u)"
    using arg_cong[OF st, of lastSelectedFrameNumber] by (simp add: erase_view_def)
  show "ancestorWithContentAvailable (states a u) = ancestorWithContentAvailable (states b u)"
    using arg_cong[OF st, of ancestorWithContentAvailable] by (simp add: erase_view_def)
  show "selected (states a u) = selected (states b u)"
    using arg_cong[OF st, of selected] by (simp add: erase_view_def)
  show "priority (states a u) = priority (states b u)"
    using arg_cong[OF st, of priority] by (simp add: erase_view_def)
qed

lemma erase_view_update_tile:
  assumes "\<And>x. f x\<lparr>distanceToCamera := 0, centerZDepth := 0, screenSpaceError := 0,
                      visibilityPlaneMask := 0\<rparr>
               = x\<lparr>distanceToCamera := 0, centerZDepth := 0, screenSpaceError := 0,
                    visibilityPlaneMask := 0\<rparr>"
  shows "erase_view (update_tile t f s) = erase_view s"
  using assms by (simp add: erase_view_def update_tile_def fun_eq_iff)

lemma updateTile_erase_view: "erase_view (snd (updateTile s t fs)) = erase_view s"
  by (simp add: updateTile_def Let_def erase_view_update_tile)

lemma updateChildren_loop_erase_view:
  "erase_view (snd (updateChildren_loop cs fs (b, s))) = erase_view s"
proof (induction cs arbitrary: b s)
  case Nil
  show ?case by simp
next
  case (Cons c cs)
  show ?case
    using Cons.IH[of "b \<or> fst (updateTile s c fs)" "snd (updateTile s c fs)"]
    by (simp add: split_def Let_def updateTile_erase_view)
qed

lemma getVisibility_erase_view: "erase_view (snd (getVisibility s t mse fs)) = erase_view s"
proof -
  have "erase_view (snd (updateChildren s t fs)) = erase_view s"
    by (simp add: updateChildren_def updateChildren_loop_erase_view)
  moreover have "\<And>x n. erase_view (x\<lparr>statistics_numberOfTilesCulledWithChildrenUnion := n\<rparr>)
                    = erase_view x"
    by (simp add: erase_view_def)
  ultimately show ?thesis
    by (simp add: getVisibility_def Let_def split_def)
qed

lemma updateVisibility_erase_view:
  "erase_view (snd (updateVisibility s t mse fs)) = erase_view s"
  by (simp add: updateVisibility_def Let_def split_def erase_view_update_tile
        getVisibility_erase_view)

lemmas updateTile_fields [simp] = erase_view_fields[OF updateTile_erase_view]
lemmas updateVisibility_fields [simp] = erase_view_fields[OF updateVisibility_erase_view]

section \<open>What the base traversal leaves alone\<close>

lemma erase_traversal_fields:
  assumes "erase_traversal a = erase_traversal b"
  shows "tiles a = tiles b"
    and "debugFreezeFrame a = debugFreezeFrame b"
    and "maximumScreenSpaceError a = maximumScreenSpaceError b"
    and "tileset_geometricError a = tileset_geometricError b"
    and "rootTile a = rootTile b"
    and "selectedTiles a = selectedTiles b"
    and "selectedTilesToStyle a = selectedTilesToStyle b"
    and "hasMixedContent a = hasMixedContent b"
    and "priv_skipLevelOfDetail a = priv_skipLevelOfDetail b"
    and "immediatelyLoadDesiredLevelOfDetail a = immediatelyLoadDesiredLevelOfDetail b"
    and "dynamicScreenSpaceError a = dynamicScreenSpaceError b"
    and "dynamicScreenSpaceErrorComputedDensity a = dynamicScreenSpaceErrorComputedDensity b"
    and "dynamicScreenSpaceErrorFactor a = dynamicScreenSpaceErrorFactor b"
    and "featurePropertiesDirty (states a u) = featurePropertiesDirty (states b u)"
    and "lastSelectedFrameNumber (states a u) = lastSelectedFrameNumber (states b u)"
proof -
  have st: "(states (erase_traversal a)) u = (states (erase_traversal b)) u"
    using assms by simp
  show "tiles a = tiles b"
    using arg_cong[OF assms, of tiles] by (simp add: erase_traversal_def)
  show "debugFreezeFrame a = debugFreezeFrame b"
    using arg_cong[OF assms, of debugFreezeFrame] by (simp add: erase_traversal_def)
  show "maximumScreenSpaceError a = maximumScreenSpaceError b"
    using arg_cong[OF assms, of maximumScreenSpaceError] by (simp add: erase_traversal_def)
  show "tileset_geometricError a = tileset_geometricError b"
    using arg_cong[OF assms, of tileset_geometricError] by (simp add: erase_traversal_def)
  show "rootTile a = rootTile b"
    using arg_cong[OF assms, of rootTile] by (simp add: erase_traversal_def)
  show "selectedTiles a = selectedTiles b"
    using arg_cong[OF assms, of selectedTiles] by (simp add: erase_traversal_def)
  show "selectedTilesToStyle a = selectedTilesToStyle b"
    using arg_cong[OF assms, of selectedTilesToStyle] by (simp add: erase_traversal_def)
  show "hasMixedContent a = hasMixedContent b"
    using arg_cong[OF assms, of hasMixedContent] by (simp add: erase_traversal_def)
  show "priv_skipLevelOfDetail a = priv_skipLevelOfDetail b"
    using arg_cong[OF assms, of priv_skipLevelOfDetail] by (simp add: erase_traversal_def)
  show "immediatelyLoadDesiredLevelOfDetail a = immediatelyLoadDesiredLevelOfDetail b"
    using arg_cong[OF assms, of immediatelyLoadDesiredLevelOfDetail]
    by (simp add: erase_traversal_def)
  show "dynamicScreenSpaceError a = dynamicScreenSpaceError b"
    using arg_cong[OF assms, of dynamicScreenSpaceError] by (simp add: erase_traversal_def)
  show "dynamicScreenSpaceErrorComputedDensity a = dynamicScreenSpaceErrorComputedDensity b"
    using arg_cong[OF assms, of dynamicScreenSpaceErrorComputedDensity]
    by (simp add: erase_traversal_def)
  show "dynamicScreenSpaceErrorFactor a = dynamicScreenSpaceErrorFactor b"
    using arg_cong[OF assms, of dynamicScreenSpaceErrorFactor] by (simp add: erase_traversal_def)
  show "featurePropertiesDirty (states a u) = featurePropertiesDirty (states b u)"
    using arg_cong[OF st, of featurePropertiesDirty] by (simp add: erase_traversal_def)
  show "lastSelectedFrameNumber (states a u) = lastSelectedFrameNumber (states b u)"
    using arg_cong[OF st, of lastSelectedFrameNumber] by (simp add: erase_traversal_def)
qed

lemma erase_traversal_erase_view: "erase_traversal (erase_view s) = erase_traversal s"
  by (simp add: erase_traversal_def erase_view_def)

lemma erase_view_imp_traversal:
  "erase_view a = erase_view b \<Longrightarrow> erase_traversal a = erase_traversal b"
  by (metis erase_traversal_erase_view)

lemma erase_traversal_update_tile:
  assumes "\<And>x. f x\<lparr>distanceToCamera := 0, centerZDepth := 0, screenSpaceError := 0,
                      visibilityPlaneMask := 0, touchedFrame := 0, visitedFrame := 0,
                      selected := False, finalResolution := False,
                      ancestorWithContentAvailable := None, refines := False, priority := 0\<rparr>
               = x\<lparr>distanceToCamera := 0, centerZDepth := 0, screenSpaceError := 0,
                    visibilityPlaneMask := 0, touchedFrame := 0, visitedFrame := 0,
                    selected := False, finalResolution := False,
                    ancestorWithContentAvailable := None, refines := False, priority := 0\<rparr>"
  shows "erase_traversal (update_tile t f s) = erase_traversal s"
  using assms by (simp add: erase_traversal_def update_tile_def fun_eq_iff)

lemma erase_traversal_lists [simp]:
  "erase_traversal (s\<lparr>requestedTiles := xs\<rparr>) = erase_traversal s"
  "erase_traversal (s\<lparr>desiredTiles := xs\<rparr>) = erase_traversal s"
  "erase_traversal (s\<lparr>leaves := xs\<rparr>) = erase_traversal s"
  "erase_traversal (s\<lparr>cache := cs\<rparr>) = erase_traversal s"
  "erase_traversal (s\<lparr>statistics_visited := n\<rparr>) = erase_traversal s"
  by (simp_all add: erase_traversal_def)

lemma updateVisibility_erase_traversal [simp]:
  "erase_traversal (snd (updateVisibility s t mse fs)) = erase_traversal s"
  by (rule erase_view_imp_traversal) (rule updateVisibility_erase_view)

lemma loadTile_erase_traversal [simp]: "erase_traversal (loadTile s t fs) = erase_traversal s"
  by (simp add: loadTile_def erase_traversal_update_tile)

lemma touch_erase_traversal [simp]: "erase_traversal (touch s t fs) = erase_traversal s"
  by (simp add: touch_def erase_traversal_update_tile)

lemma stampTouched_erase_traversal [simp]:
  "erase_traversal (stampTouched s t fs) = erase_traversal s"
  by (simp add: stampTouched_def erase_traversal_update_tile)

lemma loadAndTouch_erase_traversal [simp]:
  "erase_traversal (loadAndTouch s t fs) = erase_traversal s"
  by (simp add: loadAndTouch_def)

lemma visitTile_erase_traversal [simp]: "erase_traversal (visitTile s t fs) = erase_traversal s"
  by (simp add: visitTile_def Let_def erase_traversal_update_tile split: option.split)

lemma executeInternalBaseTraversal_child_erase_traversal [simp]:
  "erase_traversal (snd (executeInternalBaseTraversal_child child mse fs acc))
     = erase_traversal (snd acc)"
  by (simp add: executeInternalBaseTraversal_child_def split_def Let_def)

lemma executeInternalBaseTraversal_children_erase_traversal [simp]:
  "erase_traversal (snd (executeInternalBaseTraversal_children cs mse fs acc))
     = erase_traversal (snd acc)"
  by (induction cs arbitrary: acc) simp_all

lemma executeInternalBaseTraversal_visit_erase_traversal:
  "executeInternalBaseTraversal_visit s tile mse fs stack b = (stack1, b1, s1)
     \<Longrightarrow> erase_traversal s1 = erase_traversal s"
  by (auto simp: executeInternalBaseTraversal_visit_def Let_def split_def split: if_splits)

lemma executeInternalBaseTraversal_loop_erase_traversal:
  "executeInternalBaseTraversal_loop fuel mse fs stack b s = Some (b', s')
     \<Longrightarrow> erase_traversal s' = erase_traversal s"
proof (induction fuel arbitrary: stack b s)
  case 0
  then show ?case by (cases stack) simp_all
next
  case (Suc fuel)
  show ?case
  proof (cases stack)
    case Nil
    with Suc.prems show ?thesis by simp
  next
    case (Cons tile rest)
    obtain stack1 b1 s1 where v: "executeInternalBaseTraversal_visit s tile mse fs rest b = (stack1, b1, s1)"
      by (metis prod_cases3)
    with Suc.prems Cons have "executeInternalBaseTraversal_loop fuel mse fs stack1 b1 s1 = Some (b', s')"
      by simp
    from Suc.IH[OF this] executeInternalBaseTraversal_visit_erase_traversal[OF v]
    show ?thesis by simp
  qed
qed

lemma executeInternalBaseTraversal_erase_traversal:
  "executeInternalBaseTraversal fuel s t mse fs = Some (b', s')
     \<Longrightarrow> erase_traversal s' = erase_traversal s"
  unfolding executeInternalBaseTraversal_def
  by (rule executeInternalBaseTraversal_loop_erase_traversal)

lemma executeBaseTraversal_child_unfold:
  "executeBaseTraversal_child fuel mse fs replace add child (r0, stack, s) =
     (let visible = fst (updateVisibility s child mse fs);
          s2 = (if replace \<or> (add \<and> visible)
                then loadAndTouch (snd (updateVisibility s child mse fs)) child fs
                else snd (updateVisibility s child mse fs));
          stack1 = (if visible then child # stack else stack)
      in if r0 \<and> replace then
           (if hasEmptyContent (tiles s child) \<or> hasTilesetContent (tiles s child)
            then map_option (\<lambda>(b, s3). (b, stack1, s3))
                   (executeInternalBaseTraversal fuel s2 child mse fs)
            else Some (contentAvailable (tiles s child), stack1, s2))
         else Some (r0, stack1, s2))"
  by (simp add: executeBaseTraversal_child_def Let_def split_def
        erase_traversal_fields(1)[OF loadAndTouch_erase_traversal]
        erase_view_fields(1)[OF updateVisibility_erase_view]
        split: option.split)

lemma executeBaseTraversal_child_erase_traversal:
  "executeBaseTraversal_child fuel mse fs replace add child acc = Some acc1
     \<Longrightarrow> erase_traversal (snd (snd acc1)) = erase_traversal (snd (snd acc))"
  by (auto simp: executeBaseTraversal_child_def Let_def split_def
        split: option.splits if_splits dest!: executeInternalBaseTraversal_erase_traversal)

lemma executeBaseTraversal_children_erase_traversal:
  "executeBaseTraversal_children fuel mse fs replace add cs acc = Some acc1
     \<Longrightarrow> erase_traversal (snd (snd acc1)) = erase_traversal (snd (snd acc))"
proof (induction cs arbitrary: acc)
  case Nil
  then show ?case by simp
next
  case (Cons child cs)
  from Cons.prems obtain acc2
    where c: "executeBaseTraversal_child fuel mse fs replace add child acc = Some acc2"
      and r: "executeBaseTraversal_children fuel mse fs replace add cs acc2 = Some acc1"
    by (auto split: option.splits)
  from Cons.IH[OF r] executeBaseTraversal_child_erase_traversal[OF c]
  show ?case by simp
qed

lemma executeBaseTraversal_finish_erase_traversal [simp]:
  "erase_traversal (snd (executeBaseTraversal_finish s tile ad tr rc pr r1 fr))
     = erase_traversal s"
  by (simp add: executeBaseTraversal_finish_def Let_def erase_traversal_update_tile)

lemma executeBaseTraversal_visit_unfold:
  "executeBaseTraversal_visit fuel s tile mse fs stack fr =
     (if children (tiles s tile) \<noteq> [] \<and> screenSpaceError (states (visitTile s tile fs) tile) > mse
      then (case executeBaseTraversal_children fuel mse fs (refine (tiles s tile) = REPLACE)
                   (refine (tiles s tile) = ADD) (children (tiles s tile))
                   ((case parent (tiles s tile) of None \<Rightarrow> True
                     | Some p \<Rightarrow> refines (states (visitTile s tile fs) p)),
                    stack, visitTile s tile fs) of
              None \<Rightarrow> None
            | Some (r1, stack1, s2) \<Rightarrow>
                Some (stack1,
                  executeBaseTraversal_finish s2 tile (refine (tiles s tile) = ADD) True
                    (refine (tiles s tile) = REPLACE \<and> contentAvailable (tiles s tile))
                    (case parent (tiles s tile) of None \<Rightarrow> True
                     | Some p \<Rightarrow> refines (states (visitTile s tile fs) p))
                    r1 fr))
      else Some (stack,
             executeBaseTraversal_finish (visitTile s tile fs) tile
               (refine (tiles s tile) = ADD) False
               (refine (tiles s tile) = REPLACE \<and> contentAvailable (tiles s tile))
               (case parent (tiles s tile) of None \<Rightarrow> True
                | Some p \<Rightarrow> refines (states (visitTile s tile fs) p))
               False fr))"
  by (simp add: executeBaseTraversal_visit_def Let_def split_def
        erase_traversal_fields[OF visitTile_erase_traversal] split: option.split)

text \<open>The two ways through a turn of the loop: the tile is not refined, or its children are walked.\<close>

lemma executeBaseTraversal_visit_cases:
  assumes "executeBaseTraversal_visit fuel s tile mse fs stack fr = Some (stack1, fr1, s1)"
  obtains (stay) pr where
      "children (tiles s tile) = [] \<or> \<not> screenSpaceError (states (visitTile s tile fs) tile) > mse"
      "stack1 = stack"
      "(fr1, s1) = executeBaseTraversal_finish (visitTile s tile fs) tile
                     (refine (tiles s tile) = ADD) False
                     (refine (tiles s tile) = REPLACE \<and> contentAvailable (tiles s tile))
                     pr False fr"
      "pr = (case parent (tiles s tile) of None \<Rightarrow> True
             | Some p \<Rightarrow> refines (states (visitTile s tile fs) p))"
  | (descend) pr r1 s2 where
      "children (tiles s tile) \<noteq> []" "screenSpaceError (states (visitTile s tile fs) tile) > mse"
      "executeBaseTraversal_children fuel mse fs (refine (tiles s tile) = REPLACE)
         (refine (tiles s tile) = ADD) (children (tiles s tile))
         (pr, stack, visitTile s tile fs) = Some (r1, stack1, s2)"
      "(fr1, s1) = executeBaseTraversal_finish s2 tile
                     (refine (tiles s tile) = ADD) True
                     (refine (tiles s tile) = REPLACE \<and> contentAvailable (tiles s tile))
                     pr r1 fr"
      "pr = (case parent (tiles s tile) of None \<Rightarrow> True
             | Some p \<Rightarrow> refines (states (visitTile s tile fs) p))"
proof (cases "children (tiles s tile) \<noteq> [] \<and>
              screenSpaceError (states (visitTile s tile fs) tile) > mse")
  case True
  with assms obtain r1 s2 where
    "executeBaseTraversal_children fuel mse fs (refine (tiles s tile) = REPLACE)
         (refine (tiles s tile) = ADD) (children (tiles s tile))
         ((case parent (tiles s tile) of None \<Rightarrow> True
             | Some p \<Rightarrow> refines (states (visitTile s tile fs) p)),
          stack, visitTile s tile fs) = Some (r1, stack1, s2)"
    "(fr1, s1) = executeBaseTraversal_finish s2 tile
                     (refine (tiles s tile) = ADD) True
                     (refine (tiles s tile) = REPLACE \<and> contentAvailable (tiles s tile))
                     (case parent (tiles s tile) of None \<Rightarrow> True
                      | Some p \<Rightarrow> refines (states (visitTile s tile fs) p)) r1 fr"
    unfolding executeBaseTraversal_visit_unfold
    by (simp split: option.splits prod.splits)
  with True show ?thesis by (intro descend[OF _ _ _ _ refl]) simp_all
next
  case False
  with assms have "stack1 = stack"
    "(fr1, s1) = executeBaseTraversal_finish (visitTile s tile fs) tile
                     (refine (tiles s tile) = ADD) False
                     (refine (tiles s tile) = REPLACE \<and> contentAvailable (tiles s tile))
                     (case parent (tiles s tile) of None \<Rightarrow> True
                      | Some p \<Rightarrow> refines (states (visitTile s tile fs) p)) False fr"
    unfolding executeBaseTraversal_visit_unfold by (simp_all split: if_splits)
  with False show ?thesis by (intro stay[OF _ _ _ refl]) simp_all
qed

lemma executeBaseTraversal_visit_erase_traversal:
  assumes "executeBaseTraversal_visit fuel s tile mse fs stack fr = Some (stack1, fr1, s1)"
  shows "erase_traversal s1 = erase_traversal s"
  using assms
proof (cases rule: executeBaseTraversal_visit_cases)
  case (stay pr)
  from arg_cong[OF stay(3), of "\<lambda>x. erase_traversal (snd x)"] show ?thesis by simp
next
  case (descend pr r1 s2)
  from arg_cong[OF descend(4), of "\<lambda>x. erase_traversal (snd x)"]
    executeBaseTraversal_children_erase_traversal[OF descend(3)]
  show ?thesis by simp
qed

lemma executeBaseTraversal_loop_erase_traversal:
  "executeBaseTraversal_loop fuel mse fs stack fr s = Some (fr', s')
     \<Longrightarrow> erase_traversal s' = erase_traversal s"
proof (induction fuel arbitrary: stack fr s)
  case 0
  then show ?case by (cases stack) simp_all
next
  case (Suc fuel)
  show ?case
  proof (cases stack)
    case Nil
    with Suc.prems show ?thesis by simp
  next
    case (Cons tile rest)
    with Suc.prems obtain stack1 fr1 s1
      where v: "executeBaseTraversal_visit fuel s tile mse fs rest fr = Some (stack1, fr1, s1)"
        and l: "executeBaseTraversal_loop fuel mse fs stack1 fr1 s1 = Some (fr', s')"
      by (auto split: option.splits)
    from Suc.IH[OF l] executeBaseTraversal_visit_erase_traversal[OF v]
    show ?thesis by simp
  qed
qed

lemma executeBaseTraversal_erase_traversal:
  "executeBaseTraversal fuel s t mse fs = Some (fr', s')
     \<Longrightarrow> erase_traversal s' = erase_traversal s"
  unfolding executeBaseTraversal_def
  by (drule executeBaseTraversal_loop_erase_traversal) simp

section \<open>The entry point up to the choice of a traversal\<close>

lemma selectTiles_rootVisible_erase_view:
  "erase_view (snd (selectTiles_rootVisible s fs)) = erase_view s"
  by (simp add: selectTiles_rootVisible_def split_def Let_def updateVisibility_erase_view
        updateTile_erase_view)

lemmas selectTiles_rootVisible_fields [simp] =
  erase_view_fields[OF selectTiles_rootVisible_erase_view]

lemmas loadTile_fields [simp] = erase_traversal_fields[OF loadTile_erase_traversal]
lemmas touch_fields [simp] = erase_traversal_fields[OF touch_erase_traversal]
lemmas stampTouched_fields [simp] = erase_traversal_fields[OF stampTouched_erase_traversal]
lemmas loadAndTouch_fields [simp] = erase_traversal_fields[OF loadAndTouch_erase_traversal]
lemmas visitTile_fields [simp] = erase_traversal_fields[OF visitTile_erase_traversal]

lemma selectTiles_begin_Inl:
  assumes "selectTiles_begin s fs = Inl s1" and "\<not> debugFreezeFrame s"
  shows "s1 = snd (selectTiles_rootVisible (selectTiles_reset s) fs)"
  using assms
  by (auto simp: selectTiles_begin_def Let_def split_def split: if_splits)

lemma selectTiles_begin_Inr:
  assumes "selectTiles_begin s fs = Inr s1"
  shows "tiles s1 = tiles s" and "rootTile s1 = rootTile s"
    and "maximumScreenSpaceError s1 = maximumScreenSpaceError s"
    and "selectedTiles s1 = []" and "selectedTilesToStyle s1 = []"
    and "\<not> hasMixedContent s1" and "\<not> priv_skipLevelOfDetail s1"
    and "\<not> debugFreezeFrame s"
  using assms
  by (auto simp: selectTiles_begin_def Let_def split_def selectTiles_reset_def
        split: if_splits)

lemma selectTiles_reset_fields [simp]:
  "selectedTiles (selectTiles_reset s) = []"
  "requestedTiles (selectTiles_reset s) = []"
  "desiredTiles (selectTiles_reset s) = []"
  "selectedTilesToStyle (selectTiles_reset s) = []"
  "hasMixedContent (selectTiles_reset s) = False"
  "tiles (selectTiles_reset s) = tiles s"
  "states (selectTiles_reset s) = states s"
  "rootTile (selectTiles_reset s) = rootTile s"
  "maximumScreenSpaceError (selectTiles_reset s) = maximumScreenSpaceError s"
  "tileset_geometricError (selectTiles_reset s) = tileset_geometricError s"
  by (simp_all add: selectTiles_reset_def)

section \<open>Tiles that are selected\<close>

lemma selectTile_tiles [simp]: "tiles (selectTile s t fs) = tiles s"
  by (simp add: selectTile_def Let_def update_tile_def)

lemma selectTile_visibilityPlaneMask [simp]:
  "visibilityPlaneMask (states (selectTile s t fs) u) = visibilityPlaneMask (states s u)"
  by (simp add: selectTile_def Let_def update_tile_def)

lemma selectTile_passes [simp]:
  "passesContentVisibility (selectTile s t fs) u fs = passesContentVisibility s u fs"
  by (simp add: passesContentVisibility_def)

lemma selectTile_selectedTiles:
  "selectedTiles (selectTile s t fs) =
     (if passesContentVisibility s t fs then selectedTiles s @ [t] else selectedTiles s)"
  by (simp add: selectTile_def Let_def update_tile_def)

lemma selectTile_lists [simp]:
  "desiredTiles (selectTile s t fs) = desiredTiles s"
  "requestedTiles (selectTile s t fs) = requestedTiles s"
  "leaves (selectTile s t fs) = leaves s"
  "hasMixedContent (selectTile s t fs) = hasMixedContent s"
  "touchedFrame (states (selectTile s t fs) u) = touchedFrame (states s u)"
  "visitedFrame (states (selectTile s t fs) u) = visitedFrame (states s u)"
  "statistics_visited (selectTile s t fs) = statistics_visited s"
  by (simp_all add: selectTile_def Let_def update_tile_def)

lemma selectTiles_each_passes [simp]:
  "passesContentVisibility (selectTiles_each ts fs s) u fs = passesContentVisibility s u fs"
  by (induction ts arbitrary: s) simp_all

lemma selectTiles_each_lists [simp]:
  "tiles (selectTiles_each ts fs s) = tiles s"
  "desiredTiles (selectTiles_each ts fs s) = desiredTiles s"
  "requestedTiles (selectTiles_each ts fs s) = requestedTiles s"
  "leaves (selectTiles_each ts fs s) = leaves s"
  "hasMixedContent (selectTiles_each ts fs s) = hasMixedContent s"
  "touchedFrame (states (selectTiles_each ts fs s) u) = touchedFrame (states s u)"
  "visitedFrame (states (selectTiles_each ts fs s) u) = visitedFrame (states s u)"
  "visibilityPlaneMask (states (selectTiles_each ts fs s) u) = visibilityPlaneMask (states s u)"
  "statistics_visited (selectTiles_each ts fs s) = statistics_visited s"
  by (induction ts arbitrary: s) simp_all

lemma selectTiles_each_selectedTiles:
  "selectedTiles (selectTiles_each ts fs s)
     = selectedTiles s @ filter (\<lambda>t. passesContentVisibility s t fs) ts"
  by (induction ts arbitrary: s) (simp_all add: selectTile_selectedTiles)

lemma selectBaseTraversal_selectedTiles:
  assumes "selectBaseTraversal fuel s r fs = Some s'"
  shows "\<exists>fr s1.
           executeBaseTraversal fuel s r (maximumScreenSpaceError s) fs = Some (fr, s1) \<and>
           selectedTiles s' = selectedTiles s
             @ filter (\<lambda>t. passesContentVisibility s' t fs) (leaves s1 @ desiredTiles s1) \<and>
           tiles s' = tiles s1 \<and>
           (\<forall>u. visibilityPlaneMask (states s' u) = visibilityPlaneMask (states s1 u)) \<and>
           hasMixedContent s' = hasMixedContent s \<and>
           requestedTiles s' = requestedTiles s1 \<and>
           (\<forall>u. touchedFrame (states s' u) = touchedFrame (states s1 u)) \<and>
           (\<forall>u. visitedFrame (states s' u) = visitedFrame (states s1 u)) \<and>
           statistics_visited s' = statistics_visited s1"
proof -
  from assms obtain fr s1
    where e: "executeBaseTraversal fuel s r (maximumScreenSpaceError s) fs = Some (fr, s1)"
      and s': "s' = selectTiles_each (desiredTiles s1) fs (selectTiles_each (leaves s1) fs s1)"
    by (auto simp: selectBaseTraversal_def Let_def split: option.splits)
  note f = erase_traversal_fields[OF executeBaseTraversal_erase_traversal[OF e]]
  have "selectedTiles s' = selectedTiles s
           @ filter (\<lambda>t. passesContentVisibility s' t fs) (leaves s1 @ desiredTiles s1)"
    by (simp add: s' selectTiles_each_selectedTiles f)
  moreover have "tiles s' = tiles s1" by (simp add: s')
  moreover have "\<And>u. visibilityPlaneMask (states s' u) = visibilityPlaneMask (states s1 u)"
    by (simp add: s')
  moreover have "hasMixedContent s' = hasMixedContent s" by (simp add: s' f)
  moreover have "requestedTiles s' = requestedTiles s1" by (simp add: s')
  moreover have "\<And>u. touchedFrame (states s' u) = touchedFrame (states s1 u)" by (simp add: s')
  moreover have "\<And>u. visitedFrame (states s' u) = visitedFrame (states s1 u)" by (simp add: s')
  moreover have "statistics_visited s' = statistics_visited s1" by (simp add: s')
  ultimately show ?thesis using e by blast
qed

text \<open>
  C5, as amended. Every tile that a call of \<open>selectTiles\<close> puts into \<open>selectedTiles\<close>
  has available content and passes the check of \<open>selectTile\<close>: its plane mask says that
  its bounding volume is wholly inside the frustum, in which case its content bounds
  are not tested, or the test of its content bounds does not answer \<open>OUTSIDE\<close>.
\<close>

theorem selectTiles_selected_pass_check:
  assumes "selectTiles fuel s fs = Some (Inr s')" and "\<not> debugFreezeFrame s"
  shows "\<forall>t \<in> set (selectedTiles s').
           contentAvailable (tiles s' t) \<and>
           (visibilityPlaneMask (states s' t) = MASK_INSIDE \<or> contentVisibility fs t \<noteq> OUTSIDE)"
proof (cases "selectTiles_begin s fs")
  case (Inl s1)
  with assms have "s' = snd (selectTiles_rootVisible (selectTiles_reset s) fs)"
    by (simp add: selectTiles_def selectTiles_begin_Inl)
  then show ?thesis by simp
next
  case (Inr s1)
  note b = selectTiles_begin_Inr[OF Inr]
  from assms(1) Inr b(7) have "selectBaseTraversal fuel s1 (rootTile s1) fs = Some s'"
    by (auto simp: selectTiles_def chosenTraversal_def)
  from selectBaseTraversal_selectedTiles[OF this] b(4)
  show ?thesis by (auto simp: passesContentVisibility_def)
qed


lemma root_and_child_run:
  "\<exists>s'. selectTiles (Suc (Suc 0)) (example_tileset 10 root_and_child) example_frame = Some (Inr s') \<and>
         selectedTiles s' = [0] \<and> requestedTiles s' = [1] \<and> \<not> hasMixedContent s' \<and>
         visibilityPlaneMask (states s' 0) = MASK_INDETERMINATE \<and> tiles s' = root_and_child"
  by (simp add: example_defs model_defs)

theorem selectTiles_selected_pass_check_witness:
  "case selectTiles (Suc (Suc 0)) (example_tileset 10 root_and_child) example_frame of
     Some (Inr s') \<Rightarrow>
       selectedTiles s' = [0] \<and> contentAvailable (tiles s' 0) \<and>
       (visibilityPlaneMask (states s' 0) = MASK_INSIDE \<or>
        contentVisibility example_frame 0 \<noteq> OUTSIDE)
   | _ \<Rightarrow> False"
proof -
  from root_and_child_run obtain s'
    where r: "selectTiles (Suc (Suc 0)) (example_tileset 10 root_and_child) example_frame
                = Some (Inr s')"
      and s: "selectedTiles s' = [0]"
    by blast
  have "\<not> debugFreezeFrame (example_tileset 10 root_and_child)"
    by (simp add: example_tileset_def)
  from selectTiles_selected_pass_check[OF r this] s r show ?thesis by simp
qed

text \<open>
  The claim as stated fails where the bounding volume of a tile is wholly inside the
  frustum: the root is selected although the test of its content bounds says
  \<open>OUTSIDE\<close>, because \<open>selectTile\<close> does not make the test then.
\<close>

theorem selectTile_skips_content_test_counterexample:
  "map_option (map_sum id selectedTiles)
       (selectTiles (Suc (Suc 0)) (example_tileset 10 root_and_child) enclosing_frame)
     = Some (Inr [0]) \<and>
   contentVisibility enclosing_frame 0 = OUTSIDE"
  by (simp add: example_defs enclosing_frame_def model_defs)

section \<open>Load requests\<close>

lemma requestsGuarded_cong:
  assumes "requestedTiles s' = requestedTiles s"
    and "\<And>u. touchedFrame (states s' u) = touchedFrame (states s u)"
  shows "requestsGuarded fs s' = requestsGuarded fs s"
  using assms by (simp add: requestsGuarded_def)

lemma requestsGuarded_request:
  assumes "requestsGuarded fs s"
  shows "requestsGuarded fs (loadAndTouch s t fs)"
  using assms
  by (auto simp: requestsGuarded_def loadAndTouch_def loadTile_def touch_def stampTouched_def
        update_tile_def list_all_iff)

lemma visitTile_requests [simp]:
  "requestedTiles (visitTile s t fs) = requestedTiles s"
  "touchedFrame (states (visitTile s t fs) u) = touchedFrame (states s u)"
  by (simp_all add: visitTile_def Let_def update_tile_def split: option.split)

lemma requestsGuarded_updateVisibility [simp]:
  "requestsGuarded fs (snd (updateVisibility s t mse fs)) = requestsGuarded fs s"
  by (rule requestsGuarded_cong) simp_all

lemma requestsGuarded_visitTile [simp]:
  "requestsGuarded fs (visitTile s t fs) = requestsGuarded fs s"
  by (rule requestsGuarded_cong) simp_all

lemma requestsGuarded_lists [simp]:
  "requestsGuarded fs (s\<lparr>leaves := xs\<rparr>) = requestsGuarded fs s"
  "requestsGuarded fs (s\<lparr>desiredTiles := xs\<rparr>) = requestsGuarded fs s"
  "requestsGuarded fs (s\<lparr>priv_skipLevelOfDetail := b\<rparr>) = requestsGuarded fs s"
  "requestsGuarded fs (update_tile t (\<lambda>x. x\<lparr>refines := r\<rparr>) s) = requestsGuarded fs s"
  by (auto simp: requestsGuarded_def update_tile_def list_all_iff)

lemma requestsGuarded_finish [simp]:
  "requestsGuarded fs (snd (executeBaseTraversal_finish s tile ad tr rc pr r1 fr))
     = requestsGuarded fs s"
  by (simp add: executeBaseTraversal_finish_def Let_def)

lemma requestsGuarded_internal_child:
  "requestsGuarded fs (snd acc)
     \<Longrightarrow> requestsGuarded fs (snd (executeInternalBaseTraversal_child child mse fs acc))"
  by (simp add: executeInternalBaseTraversal_child_def split_def Let_def
        requestsGuarded_request)

lemma requestsGuarded_internal_children:
  "requestsGuarded fs (snd acc)
     \<Longrightarrow> requestsGuarded fs (snd (executeInternalBaseTraversal_children cs mse fs acc))"
  by (induction cs arbitrary: acc) (simp_all add: requestsGuarded_internal_child)

lemma requestsGuarded_internal_visit:
  assumes "executeInternalBaseTraversal_visit s tile mse fs stack b = (stack1, b1, s1)"
    and "requestsGuarded fs s"
  shows "requestsGuarded fs s1"
proof -
  have "s1 = s \<or> s1 = snd (executeInternalBaseTraversal_children (children (tiles s tile))
                             mse fs (stack, s))"
    using assms(1)
    by (auto simp: executeInternalBaseTraversal_visit_def Let_def split_def split: if_splits)
  with assms(2) requestsGuarded_internal_children[of fs "(stack, s)"] show ?thesis by auto
qed

lemma requestsGuarded_internal_loop:
  "executeInternalBaseTraversal_loop fuel mse fs stack b s = Some (b', s')
     \<Longrightarrow> requestsGuarded fs s \<Longrightarrow> requestsGuarded fs s'"
proof (induction fuel arbitrary: stack b s)
  case 0
  then show ?case by (cases stack) simp_all
next
  case (Suc fuel)
  show ?case
  proof (cases stack)
    case Nil
    with Suc.prems show ?thesis by simp
  next
    case (Cons tile rest)
    obtain stack1 b1 s1
      where v: "executeInternalBaseTraversal_visit s tile mse fs rest b = (stack1, b1, s1)"
      by (metis prod_cases3)
    with Suc.prems(1) Cons
    have "executeInternalBaseTraversal_loop fuel mse fs stack1 b1 s1 = Some (b', s')"
      by simp
    from Suc.IH[OF this requestsGuarded_internal_visit[OF v Suc.prems(2)]]
    show ?thesis .
  qed
qed

lemma requestsGuarded_base_child:
  assumes "executeBaseTraversal_child fuel mse fs replace add child acc = Some acc1"
    and "requestsGuarded fs (snd (snd acc))"
  shows "requestsGuarded fs (snd (snd acc1))"
proof -
  obtain r0 stack s where acc: "acc = (r0, stack, s)" by (metis prod_cases3)
  define s2 where "s2 = (if replace \<or> (add \<and> fst (updateVisibility s child mse fs))
      then loadAndTouch (snd (updateVisibility s child mse fs)) child fs
      else snd (updateVisibility s child mse fs))"
  have g2: "requestsGuarded fs s2"
    using assms(2) by (simp add: s2_def acc requestsGuarded_request)
  have "snd (snd acc1) = s2 \<or>
        (\<exists>b. executeInternalBaseTraversal fuel s2 child mse fs = Some (b, snd (snd acc1)))"
    using assms(1) unfolding acc executeBaseTraversal_child_unfold Let_def s2_def[symmetric]
    by (auto split: if_splits)
  with g2 show ?thesis
    by (auto simp: executeInternalBaseTraversal_def dest: requestsGuarded_internal_loop)
qed

lemma requestsGuarded_base_children:
  "executeBaseTraversal_children fuel mse fs replace add cs acc = Some acc1
     \<Longrightarrow> requestsGuarded fs (snd (snd acc)) \<Longrightarrow> requestsGuarded fs (snd (snd acc1))"
proof (induction cs arbitrary: acc)
  case Nil
  then show ?case by simp
next
  case (Cons child cs)
  from Cons.prems(1) obtain acc2
    where c: "executeBaseTraversal_child fuel mse fs replace add child acc = Some acc2"
      and r: "executeBaseTraversal_children fuel mse fs replace add cs acc2 = Some acc1"
    by (auto split: option.splits)
  from Cons.IH[OF r requestsGuarded_base_child[OF c Cons.prems(2)]] show ?case .
qed

lemma requestsGuarded_base_visit:
  assumes "executeBaseTraversal_visit fuel s tile mse fs stack fr = Some (stack1, fr1, s1)"
    and "requestsGuarded fs s"
  shows "requestsGuarded fs s1"
  using assms(1)
proof (cases rule: executeBaseTraversal_visit_cases)
  case (stay pr)
  from arg_cong[OF stay(3), of "\<lambda>x. requestsGuarded fs (snd x)"] assms(2)
  show ?thesis by simp
next
  case (descend pr r1 s2)
  from requestsGuarded_base_children[OF descend(3)] assms(2)
  have "requestsGuarded fs s2" by simp
  with arg_cong[OF descend(4), of "\<lambda>x. requestsGuarded fs (snd x)"]
  show ?thesis by simp
qed

lemma requestsGuarded_base_loop:
  "executeBaseTraversal_loop fuel mse fs stack fr s = Some (fr', s')
     \<Longrightarrow> requestsGuarded fs s \<Longrightarrow> requestsGuarded fs s'"
proof (induction fuel arbitrary: stack fr s)
  case 0
  then show ?case by (cases stack) simp_all
next
  case (Suc fuel)
  show ?case
  proof (cases stack)
    case Nil
    with Suc.prems show ?thesis by simp
  next
    case (Cons tile rest)
    with Suc.prems(1) obtain stack1 fr1 s1
      where v: "executeBaseTraversal_visit fuel s tile mse fs rest fr = Some (stack1, fr1, s1)"
        and l: "executeBaseTraversal_loop fuel mse fs stack1 fr1 s1 = Some (fr', s')"
      by (auto split: option.splits)
    from Suc.IH[OF l requestsGuarded_base_visit[OF v Suc.prems(2)]] show ?thesis .
  qed
qed


lemma requestsGuarded_begin:
  assumes "selectTiles_begin s fs = Inr s1"
  shows "requestsGuarded fs s1"
proof -
  let ?s3 = "snd (selectTiles_rootVisible (selectTiles_reset s) fs)"
  have "requestsGuarded fs ?s3" by (simp add: requestsGuarded_def)
  then have "requestsGuarded fs (loadAndTouch ?s3 (rootTile s) fs)"
    by (rule requestsGuarded_request)
  moreover from assms
  have "s1 = (loadAndTouch ?s3 (rootTile s) fs)\<lparr>priv_skipLevelOfDetail := False\<rparr>"
    by (auto simp: selectTiles_begin_def Let_def split_def split: if_splits)
  ultimately show ?thesis by simp
qed

text \<open>
  C6. Within one call of \<open>selectTiles\<close> no tile is pushed onto \<open>requestedTiles\<close> twice,
  and every tile pushed carries the touched stamp of the frame, which is what
  \<open>loadTile\<close> tests before it pushes. In a frozen frame nothing is pushed.
\<close>

theorem selectTiles_requests_once:
  assumes "selectTiles fuel s fs = Some (Inr s')"
  shows "if debugFreezeFrame s then requestedTiles s' = requestedTiles s
         else distinct (requestedTiles s') \<and>
              list_all (\<lambda>t. touchedFrame (states s' t) = frameNumber fs) (requestedTiles s')"
proof (cases "debugFreezeFrame s")
  case True
  with assms show ?thesis by (simp add: selectTiles_def selectTiles_begin_def)
next
  case False
  have "requestsGuarded fs s'"
  proof (cases "selectTiles_begin s fs")
    case (Inl s1)
    with assms False have "s' = snd (selectTiles_rootVisible (selectTiles_reset s) fs)"
      by (simp add: selectTiles_def selectTiles_begin_Inl)
    then show ?thesis by (simp add: requestsGuarded_def)
  next
    case (Inr s1)
    note b = selectTiles_begin_Inr[OF Inr]
    from assms(1) Inr b(7) have "selectBaseTraversal fuel s1 (rootTile s1) fs = Some s'"
      by (auto simp: selectTiles_def chosenTraversal_def)
    from selectBaseTraversal_selectedTiles[OF this] obtain fr s2
      where e: "executeBaseTraversal fuel s1 (rootTile s1) (maximumScreenSpaceError s1) fs
                  = Some (fr, s2)"
        and r: "requestedTiles s' = requestedTiles s2"
               "\<forall>u. touchedFrame (states s' u) = touchedFrame (states s2 u)"
      by blast
    from e requestsGuarded_begin[OF Inr] have "requestsGuarded fs s2"
      by (auto simp: executeBaseTraversal_def dest: requestsGuarded_base_loop)
    with r show ?thesis by (simp add: requestsGuarded_def)
  qed
  with False show ?thesis by (simp add: requestsGuarded_def)
qed

theorem selectTiles_requests_once_witness:
  "case selectTiles (Suc (Suc 0)) (example_tileset 10 root_and_child) example_frame of
     Some (Inr s') \<Rightarrow>
       requestedTiles s' = [1] \<and> distinct (requestedTiles s') \<and>
       list_all (\<lambda>t. touchedFrame (states s' t) = frameNumber example_frame) (requestedTiles s')
   | _ \<Rightarrow> False"
proof -
  from root_and_child_run obtain s'
    where r: "selectTiles (Suc (Suc 0)) (example_tileset 10 root_and_child) example_frame
                = Some (Inr s')"
      and s: "requestedTiles s' = [1]"
    by blast
  have "\<not> debugFreezeFrame (example_tileset 10 root_and_child)"
    by (simp add: example_tileset_def)
  with selectTiles_requests_once[OF r] s r show ?thesis by simp
qed

section \<open>What the walk over the children leaves alone\<close>

lemma erase_loading_fields:
  assumes "erase_loading a = erase_loading b"
  shows "tiles a = tiles b"
    and "maximumScreenSpaceError a = maximumScreenSpaceError b"
    and "rootTile a = rootTile b"
    and "desiredTiles a = desiredTiles b"
    and "selectedTiles a = selectedTiles b"
    and "hasMixedContent a = hasMixedContent b"
    and "statistics_visited a = statistics_visited b"
    and "leaves a = leaves b"
    and "visitedFrame (states a u) = visitedFrame (states b u)"
    and "refines (states a u) = refines (states b u)"
proof -
  have st: "(states (erase_loading a)) u = (states (erase_loading b)) u"
    using assms by simp
  show "tiles a = tiles b"
    using arg_cong[OF assms, of tiles] by (simp add: erase_loading_def)
  show "maximumScreenSpaceError a = maximumScreenSpaceError b"
    using arg_cong[OF assms, of maximumScreenSpaceError] by (simp add: erase_loading_def)
  show "rootTile a = rootTile b"
    using arg_cong[OF assms, of rootTile] by (simp add: erase_loading_def)
  show "desiredTiles a = desiredTiles b"
    using arg_cong[OF assms, of desiredTiles] by (simp add: erase_loading_def)
  show "selectedTiles a = selectedTiles b"
    using arg_cong[OF assms, of selectedTiles] by (simp add: erase_loading_def)
  show "hasMixedContent a = hasMixedContent b"
    using arg_cong[OF assms, of hasMixedContent] by (simp add: erase_loading_def)
  show "statistics_visited a = statistics_visited b"
    using arg_cong[OF assms, of statistics_visited] by (simp add: erase_loading_def)
  show "leaves a = leaves b"
    using arg_cong[OF assms, of leaves] by (simp add: erase_loading_def)
  show "visitedFrame (states a u) = visitedFrame (states b u)"
    using arg_cong[OF st, of visitedFrame] by (simp add: erase_loading_def)
  show "refines (states a u) = refines (states b u)"
    using arg_cong[OF st, of refines] by (simp add: erase_loading_def)
qed

lemma erase_loading_erase_view: "erase_loading (erase_view s) = erase_loading s"
  by (simp add: erase_loading_def erase_view_def)

lemma erase_view_imp_loading:
  "erase_view a = erase_view b \<Longrightarrow> erase_loading a = erase_loading b"
  by (metis erase_loading_erase_view)

lemma erase_loading_update_tile:
  assumes "\<And>x. f x\<lparr>distanceToCamera := 0, centerZDepth := 0, screenSpaceError := 0,
                      visibilityPlaneMask := 0, touchedFrame := 0, priority := 0\<rparr>
               = x\<lparr>distanceToCamera := 0, centerZDepth := 0, screenSpaceError := 0,
                    visibilityPlaneMask := 0, touchedFrame := 0, priority := 0\<rparr>"
  shows "erase_loading (update_tile t f s) = erase_loading s"
  using assms by (simp add: erase_loading_def update_tile_def fun_eq_iff)

lemma erase_loading_lists [simp]:
  "erase_loading (s\<lparr>requestedTiles := xs\<rparr>) = erase_loading s"
  "erase_loading (s\<lparr>cache := cs\<rparr>) = erase_loading s"
  by (simp_all add: erase_loading_def)

lemma updateVisibility_erase_loading [simp]:
  "erase_loading (snd (updateVisibility s t mse fs)) = erase_loading s"
  by (rule erase_view_imp_loading) (rule updateVisibility_erase_view)


lemma loadAndTouch_erase_loading [simp]:
  "erase_loading (loadAndTouch s t fs) = erase_loading s"
  by (simp add: loadAndTouch_def loadTile_def touch_def stampTouched_def
        erase_loading_update_tile)

lemma executeInternalBaseTraversal_child_erase_loading [simp]:
  "erase_loading (snd (executeInternalBaseTraversal_child child mse fs acc))
     = erase_loading (snd acc)"
  by (simp add: executeInternalBaseTraversal_child_def split_def Let_def)

lemma executeInternalBaseTraversal_children_erase_loading [simp]:
  "erase_loading (snd (executeInternalBaseTraversal_children cs mse fs acc))
     = erase_loading (snd acc)"
  by (induction cs arbitrary: acc) simp_all








section \<open>Updated tiles\<close>

lemma getScreenSpaceError_cong:
  assumes "distanceToCamera (states a t) = distanceToCamera (states b t)"
    and "dynamicScreenSpaceError a = dynamicScreenSpaceError b"
    and "dynamicScreenSpaceErrorComputedDensity a = dynamicScreenSpaceErrorComputedDensity b"
    and "dynamicScreenSpaceErrorFactor a = dynamicScreenSpaceErrorFactor b"
  shows "getScreenSpaceError a ge t fs = getScreenSpaceError b ge t fs"
  by (simp add: getScreenSpaceError_def Let_def assms)

lemma getScreenSpaceError_zero [simp]: "getScreenSpaceError s 0 t fs = 0"
  by (simp add: getScreenSpaceError_def)

lemma frameScreenSpaceError_zero [simp]: "frameScreenSpaceError s 0 t fs = 0"
  by (simp add: frameScreenSpaceError_def)

lemma frameScreenSpaceError_cong:
  assumes "dynamicScreenSpaceError a = dynamicScreenSpaceError b"
    and "dynamicScreenSpaceErrorComputedDensity a = dynamicScreenSpaceErrorComputedDensity b"
    and "dynamicScreenSpaceErrorFactor a = dynamicScreenSpaceErrorFactor b"
  shows "frameScreenSpaceError a ge t fs = frameScreenSpaceError b ge t fs"
  unfolding frameScreenSpaceError_def
  by (rule getScreenSpaceError_cong) (simp_all add: assms update_tile_def)

lemma getScreenSpaceError_frame:
  "distanceToCamera (states s t) = distanceToTile fs t
     \<Longrightarrow> getScreenSpaceError s ge t fs = frameScreenSpaceError s ge t fs"
  unfolding frameScreenSpaceError_def
  by (rule getScreenSpaceError_cong) (simp_all add: update_tile_def)

lemma viewUpdated_cong:
  assumes "states b t = states a t" and "tiles b = tiles a"
    and "dynamicScreenSpaceError a = dynamicScreenSpaceError b"
    and "dynamicScreenSpaceErrorComputedDensity a = dynamicScreenSpaceErrorComputedDensity b"
    and "dynamicScreenSpaceErrorFactor a = dynamicScreenSpaceErrorFactor b"
  shows "viewUpdated fs b t = viewUpdated fs a t"
  using assms frameScreenSpaceError_cong[OF assms(3-5)] by (simp add: viewUpdated_def)

lemma updateTile_states:
  "states (snd (updateTile s t fs)) u =
     (if u = t
      then (states s t)\<lparr>distanceToCamera := distanceToTile fs t,
             centerZDepth := distanceToTileCenter fs t,
             screenSpaceError := frameScreenSpaceError s (geometricError (tiles s t)) t fs,
             visibilityPlaneMask :=
               (if fst (updateTile s t fs)
                then visibility fs t (case parent (tiles s t) of
                                        Some p \<Rightarrow> visibilityPlaneMask (states s p)
                                      | None \<Rightarrow> MASK_INDETERMINATE)
                else MASK_OUTSIDE)\<rparr>
      else states s u)"
proof -
  have "getScreenSpaceError
          (update_tile t (\<lambda>x. x\<lparr>distanceToCamera := distanceToTile fs t,
                                    centerZDepth := distanceToTileCenter fs t\<rparr>) s)
          (geometricError (tiles s t)) t fs
        = frameScreenSpaceError s (geometricError (tiles s t)) t fs"
    unfolding frameScreenSpaceError_def
    by (rule getScreenSpaceError_cong) (simp_all add: update_tile_def)
  then show ?thesis
    by (simp add: updateTile_def Let_def update_tile_def)
qed

lemma updateTile_fst:
  "fst (updateTile s t fs) =
     (visibility fs t (case parent (tiles s t) of
                         Some p \<Rightarrow> visibilityPlaneMask (states s p)
                       | None \<Rightarrow> MASK_INDETERMINATE) \<noteq> MASK_OUTSIDE \<and>
      insideViewerRequestVolume fs t)"
  by (simp add: updateTile_def Let_def)

lemma updateTile_viewUpdated_self [simp]: "viewUpdated fs (snd (updateTile s t fs)) t"
  by (simp add: viewUpdated_def updateTile_states
        frameScreenSpaceError_cong[of "snd (updateTile s t fs)" s])

lemma updateTile_viewUpdated:
  "viewUpdated fs s r \<Longrightarrow> viewUpdated fs (snd (updateTile s t fs)) r"
  by (cases "r = t")
     (simp_all add: viewUpdated_def updateTile_states
        frameScreenSpaceError_cong[of "snd (updateTile s t fs)" s])

lemma updateChildren_loop_viewUpdated:
  "viewUpdated fs s r \<Longrightarrow> viewUpdated fs (snd (updateChildren_loop cs fs (b, s))) r"
proof (induction cs arbitrary: b s)
  case Nil
  then show ?case by simp
next
  case (Cons c cs)
  from Cons.IH[OF updateTile_viewUpdated[OF Cons.prems], of "b \<or> fst (updateTile s c fs)" c]
  show ?case by (simp add: split_def Let_def)
qed

lemma viewUpdated_other_fields [simp]:
  "viewUpdated fs (s\<lparr>statistics_numberOfTilesCulledWithChildrenUnion := n\<rparr>) r = viewUpdated fs s r"
  "viewUpdated fs (s\<lparr>leaves := xs\<rparr>) r = viewUpdated fs s r"
  "viewUpdated fs (s\<lparr>desiredTiles := xs\<rparr>) r = viewUpdated fs s r"
  "viewUpdated fs (s\<lparr>priv_skipLevelOfDetail := b\<rparr>) r = viewUpdated fs s r"
  "viewUpdated fs (update_tile t (\<lambda>x. x\<lparr>visibilityPlaneMask := m\<rparr>) s) r = viewUpdated fs s r"
  "viewUpdated fs (update_tile t (\<lambda>x. x\<lparr>refines := rf\<rparr>) s) r = viewUpdated fs s r"
  by (simp_all add: viewUpdated_def frameScreenSpaceError_def getScreenSpaceError_def
        update_tile_def Let_def)

lemma getVisibility_viewUpdated:
  "viewUpdated fs s r \<Longrightarrow> viewUpdated fs (snd (getVisibility s t mse fs)) r"
  by (simp add: getVisibility_def Let_def split_def updateChildren_def
        updateChildren_loop_viewUpdated)

lemma updateVisibility_viewUpdated:
  "viewUpdated fs s r \<Longrightarrow> viewUpdated fs (snd (updateVisibility s t mse fs)) r"
  by (simp add: updateVisibility_def Let_def split_def getVisibility_viewUpdated)

lemma selectTiles_rootVisible_viewUpdated:
  "viewUpdated fs (snd (selectTiles_rootVisible s fs)) (rootTile s)"
  by (simp add: selectTiles_rootVisible_def Let_def split_def updateVisibility_viewUpdated)

lemma loadAndTouch_viewUpdated [simp]:
  "viewUpdated fs (loadAndTouch s t fs) r = viewUpdated fs s r"
  by (simp add: viewUpdated_def frameScreenSpaceError_def getScreenSpaceError_def
        loadAndTouch_def loadTile_def touch_def stampTouched_def update_tile_def Let_def)

lemma visitTile_viewUpdated [simp]:
  "viewUpdated fs (visitTile s t fs) r = viewUpdated fs s r"
  by (simp add: viewUpdated_def frameScreenSpaceError_def getScreenSpaceError_def
        visitTile_def update_tile_def Let_def split: option.split)

section \<open>What single steps write\<close>

lemma visitTile_observe [simp]:
  "screenSpaceError (states (visitTile s t fs) u) = screenSpaceError (states s u)"
  "distanceToCamera (states (visitTile s t fs) u) = distanceToCamera (states s u)"
  "visibilityPlaneMask (states (visitTile s t fs) u) = visibilityPlaneMask (states s u)"
  "refines (states (visitTile s t fs) u) = refines (states s u)"
  "leaves (visitTile s t fs) = leaves s"
  "desiredTiles (visitTile s t fs) = desiredTiles s"
  "u \<noteq> t \<Longrightarrow> visitedFrame (states (visitTile s t fs) u) = visitedFrame (states s u)"
  "statistics_visited (visitTile s t fs) \<le> Suc (statistics_visited s)"
  by (simp_all add: visitTile_def Let_def update_tile_def split: option.split)

lemma loadAndTouch_observe [simp]:
  "screenSpaceError (states (loadAndTouch s t fs) u) = screenSpaceError (states s u)"
  "distanceToCamera (states (loadAndTouch s t fs) u) = distanceToCamera (states s u)"
  "visibilityPlaneMask (states (loadAndTouch s t fs) u) = visibilityPlaneMask (states s u)"
  "touchedFrame (states (loadAndTouch s t fs) u) =
     (if u = t then frameNumber fs else touchedFrame (states s u))"
  "requestedTiles (loadAndTouch s t fs) =
     (if touchedFrame (states s t) \<noteq> frameNumber fs \<and>
         (contentUnloaded (tiles s t) \<or> contentExpired (tiles s t))
      then requestedTiles s @ [t] else requestedTiles s)"
  by (simp_all add: loadAndTouch_def loadTile_def touch_def stampTouched_def update_tile_def)

lemmas loadAndTouch_kept [simp] = erase_loading_fields[OF loadAndTouch_erase_loading]
lemmas updateVisibility_kept [simp] = erase_loading_fields[OF updateVisibility_erase_loading]

lemma executeBaseTraversal_finish_observe [simp]:
  "tiles (snd (executeBaseTraversal_finish s tile ad tr rc pr r1 fr)) = tiles s"
  "refines (states (snd (executeBaseTraversal_finish s tile ad tr rc pr r1 fr)) u) =
     (if u = tile then r1 else refines (states s u))"
  "leaves (snd (executeBaseTraversal_finish s tile ad tr rc pr r1 fr)) =
     (if \<not> r1 \<and> pr \<and> rc then leaves s @ [tile] else leaves s)"
  "desiredTiles (snd (executeBaseTraversal_finish s tile ad tr rc pr r1 fr)) =
     (if ad \<and> contentAvailable (tiles s tile) then desiredTiles s @ [tile] else desiredTiles s)"
  "requestedTiles (snd (executeBaseTraversal_finish s tile ad tr rc pr r1 fr)) = requestedTiles s"
  "selectedTiles (snd (executeBaseTraversal_finish s tile ad tr rc pr r1 fr)) = selectedTiles s"
  "hasMixedContent (snd (executeBaseTraversal_finish s tile ad tr rc pr r1 fr)) = hasMixedContent s"
  "statistics_visited (snd (executeBaseTraversal_finish s tile ad tr rc pr r1 fr))
     = statistics_visited s"
  "visitedFrame (states (snd (executeBaseTraversal_finish s tile ad tr rc pr r1 fr)) u)
     = visitedFrame (states s u)"
  "touchedFrame (states (snd (executeBaseTraversal_finish s tile ad tr rc pr r1 fr)) u)
     = touchedFrame (states s u)"
  "visibilityPlaneMask (states (snd (executeBaseTraversal_finish s tile ad tr rc pr r1 fr)) u)
     = visibilityPlaneMask (states s u)"
  "screenSpaceError (states (snd (executeBaseTraversal_finish s tile ad tr rc pr r1 fr)) u)
     = screenSpaceError (states s u)"
  "distanceToCamera (states (snd (executeBaseTraversal_finish s tile ad tr rc pr r1 fr)) u)
     = distanceToCamera (states s u)"
  by (simp_all add: executeBaseTraversal_finish_def Let_def update_tile_def)

section \<open>A tileset without geometric error\<close>

lemma selectTiles_begin_unfold:
  assumes "\<not> debugFreezeFrame s" and "fst (selectTiles_rootVisible (selectTiles_reset s) fs)"
  shows "selectTiles_begin s fs =
     (if frameScreenSpaceError s (tileset_geometricError s) (rootTile s) fs
          \<le> maximumScreenSpaceError s
      then Inl (snd (selectTiles_rootVisible (selectTiles_reset s) fs))
      else Inr ((loadAndTouch (snd (selectTiles_rootVisible (selectTiles_reset s) fs))
                   (rootTile s) fs)\<lparr>priv_skipLevelOfDetail := False\<rparr>))"
proof -
  let ?s3 = "snd (selectTiles_rootVisible (selectTiles_reset s) fs)"
  have "viewUpdated fs ?s3 (rootTile s)"
    using selectTiles_rootVisible_viewUpdated[of fs "selectTiles_reset s"] by simp
  then have "getScreenSpaceError ?s3 (tileset_geometricError s) (rootTile s) fs
             = frameScreenSpaceError ?s3 (tileset_geometricError s) (rootTile s) fs"
    by (simp add: viewUpdated_def getScreenSpaceError_frame)
  also have "\<dots> = frameScreenSpaceError s (tileset_geometricError s) (rootTile s) fs"
    by (rule frameScreenSpaceError_cong) (simp_all add: selectTiles_reset_def)
  finally show ?thesis
    using assms by (simp add: selectTiles_begin_def Let_def split_def)
qed


lemma executeBaseTraversal_no_refinement:
  assumes "children (tiles s r) = [] \<or> \<not> screenSpaceError (states s r) > mse"
  shows "executeBaseTraversal (Suc fuel) s r mse fs =
           Some (executeBaseTraversal_finish (visitTile (s\<lparr>leaves := []\<rparr>) r fs) r
                   (refine (tiles s r) = ADD) False
                   (refine (tiles s r) = REPLACE \<and> contentAvailable (tiles s r))
                   (case parent (tiles s r) of None \<Rightarrow> True
                    | Some p \<Rightarrow> refines (states s p))
                   False True)"
  using assms
  by (auto simp: executeBaseTraversal_def executeBaseTraversal_visit_unfold split_def
        cong: option.case_cong)

text \<open>
  C2, as amended. Take a tileset that is not frozen, whose root has no parent and is
  visible, and in which every tile has available content and geometric error 0, with a
  positive \<open>maximumScreenSpaceError\<close>. A call of \<open>selectTiles\<close> returns after visiting at
  most the root. When the screen-space error of the geometric error of the tileset
  itself is within the budget (as it is when that error is 0 too), the call returns
  before the traversal and selects nothing. Otherwise it selects exactly the root if the
  root passes the check of \<open>selectTile\<close>, and nothing if it does not.
\<close>

theorem selectTiles_without_geometric_error:
  assumes nf: "\<not> debugFreezeFrame s"
    and np: "parent (tiles s (rootTile s)) = None"
    and rv: "fst (selectTiles_rootVisible (selectTiles_reset s) fs)"
    and av: "\<forall>t. contentAvailable (tiles s t) \<and> geometricError (tiles s t) = 0"
    and mse: "0 < maximumScreenSpaceError s"
  shows "\<exists>s'. selectTiles (Suc fuel) s fs = Some (Inr s') \<and>
           selectedTiles s' =
             (if frameScreenSpaceError s (tileset_geometricError s) (rootTile s) fs
                   \<le> maximumScreenSpaceError s
              then []
              else if visibilityPlaneMask (states s' (rootTile s)) = MASK_INSIDE \<or>
                      contentVisibility fs (rootTile s) \<noteq> OUTSIDE
              then [rootTile s] else []) \<and>
           (\<forall>t. t \<noteq> rootTile s \<longrightarrow> visitedFrame (states s' t) = visitedFrame (states s t)) \<and>
           statistics_visited s' \<le> Suc (statistics_visited s)"
proof (cases "frameScreenSpaceError s (tileset_geometricError s) (rootTile s) fs
                \<le> maximumScreenSpaceError s")
  case True
  then show ?thesis
    by (simp add: selectTiles_def selectTiles_begin_unfold[OF nf rv] selectTiles_reset_def)
next
  case False
  let ?r = "rootTile s"
  let ?s3 = "snd (selectTiles_rootVisible (selectTiles_reset s) fs)"
  let ?s5 = "(loadAndTouch ?s3 ?r fs)\<lparr>priv_skipLevelOfDetail := False\<rparr>"
  let ?fin = "executeBaseTraversal_finish (visitTile (?s5\<lparr>leaves := []\<rparr>) ?r fs) ?r
                   (refine (tiles s ?r) = ADD) False
                   (refine (tiles s ?r) = REPLACE \<and> contentAvailable (tiles s ?r)) True
                   False True"
  let ?s6 = "snd ?fin"
  let ?s' = "selectTiles_each (desiredTiles ?s6) fs (selectTiles_each (leaves ?s6) fs ?s6)"
  have t5: "tiles ?s5 = tiles s" "rootTile ?s5 = ?r"
    "maximumScreenSpaceError ?s5 = maximumScreenSpaceError s"
    by simp_all
  have "viewUpdated fs ?s3 ?r"
    using selectTiles_rootVisible_viewUpdated[of fs "selectTiles_reset s"] by simp
  with av have sse: "screenSpaceError (states ?s5 ?r) = 0"
    by (simp add: viewUpdated_def)
  have b: "selectTiles_begin s fs = Inr ?s5"
    using False by (simp add: selectTiles_begin_unfold[OF nf rv])
  have "executeBaseTraversal (Suc fuel) ?s5 ?r (maximumScreenSpaceError s) fs = Some ?fin"
    using executeBaseTraversal_no_refinement[of ?s5 ?r "maximumScreenSpaceError s" fuel fs]
      sse mse np by (simp add: t5)
  then have run: "selectTiles (Suc fuel) s fs = Some (Inr ?s')"
    by (simp add: selectTiles_def b chosenTraversal_def selectBaseTraversal_def t5
          split_def Let_def)
  have ld: "leaves ?s6 @ desiredTiles ?s6 = [?r]"
    using av by (cases "refine (tiles s ?r)") (simp_all add: selectTiles_reset_def)
  have "selectedTiles ?s' =
          filter (\<lambda>t. passesContentVisibility ?s6 t fs) (leaves ?s6 @ desiredTiles ?s6)"
    by (simp add: selectTiles_each_selectedTiles selectTiles_reset_def)
  with ld av have sel: "selectedTiles ?s' =
       (if visibilityPlaneMask (states ?s' ?r) = MASK_INSIDE \<or> contentVisibility fs ?r \<noteq> OUTSIDE
        then [?r] else [])"
    by (simp add: passesContentVisibility_def)
  have vis: "\<forall>t. t \<noteq> ?r \<longrightarrow> visitedFrame (states ?s' t) = visitedFrame (states s t)"
    by (simp add: selectTiles_reset_def)
  have st: "statistics_visited ?s' \<le> Suc (statistics_visited s)"
    using visitTile_observe(8)[of "?s5\<lparr>leaves := []\<rparr>" ?r fs]
    by (simp add: selectTiles_reset_def)
  from run sel vis st False show ?thesis by simp
qed


theorem selectTiles_without_geometric_error_witness:
  "0 < maximumScreenSpaceError (example_tileset 10 flat_tiles) \<and>
   (case selectTiles (Suc 0) (example_tileset 10 flat_tiles) example_frame of
      Some (Inr s') \<Rightarrow>
        selectedTiles s' = [0] \<and>
        visitedFrame (states s' 1) = visitedFrame (states (example_tileset 10 flat_tiles) 1)
    | _ \<Rightarrow> False)"
proof -
  let ?T = "example_tileset 10 flat_tiles"
  have nf: "\<not> debugFreezeFrame ?T" and np: "parent (tiles ?T (rootTile ?T)) = None"
    and av: "\<forall>t. contentAvailable (tiles ?T t) \<and> geometricError (tiles ?T t) = 0"
    and mse: "0 < maximumScreenSpaceError ?T"
    by (simp_all add: example_defs flat_tiles_def)
  have rv: "fst (selectTiles_rootVisible (selectTiles_reset ?T) example_frame)"
    by (simp add: example_defs flat_tiles_def model_defs)
  have big: "\<not> frameScreenSpaceError ?T (tileset_geometricError ?T) (rootTile ?T) example_frame
               \<le> maximumScreenSpaceError ?T"
    by (simp add: example_defs frameScreenSpaceError_def model_defs)
  have cv: "contentVisibility example_frame (rootTile ?T) \<noteq> OUTSIDE" "rootTile ?T = 0"
    by (simp_all add: example_defs)
  from selectTiles_without_geometric_error[OF nf np rv av mse, of 0] big cv mse
  show ?thesis by auto
qed

text \<open>
  The claim as stated fails when the tileset itself has no geometric error either: the
  call returns at the test of the tileset's error and selects nothing, not the root.
\<close>

theorem selectTiles_without_geometric_error_counterexample:
  "fst (selectTiles_rootVisible (selectTiles_reset (example_tileset 0 flat_tiles)) example_frame) \<and>
   (\<forall>t. contentAvailable (tiles (example_tileset 0 flat_tiles) t) \<and>
        geometricError (tiles (example_tileset 0 flat_tiles) t) = 0) \<and>
   0 < maximumScreenSpaceError (example_tileset 0 flat_tiles) \<and>
   map_option (map_sum id selectedTiles)
       (selectTiles (Suc 0) (example_tileset 0 flat_tiles) example_frame)
     = Some (Inr [])"
  by (simp add: example_defs flat_tiles_def model_defs)

section \<open>Which tiles the visibility pass writes\<close>

lemma updateChildren_loop_states:
  "u \<notin> set cs \<Longrightarrow> states (snd (updateChildren_loop cs fs (b, s))) u = states s u"
proof (induction cs arbitrary: b s)
  case Nil
  then show ?case by simp
next
  case (Cons c cs)
  from Cons.prems have "u \<notin> set cs" "u \<noteq> c" by auto
  with Cons.IH[of "b \<or> fst (updateTile s c fs)" "snd (updateTile s c fs)"]
  show ?case by (simp add: split_def Let_def updateTile_states)
qed

lemma updateChildren_loop_viewUpdated_child:
  "c \<in> set cs \<Longrightarrow> viewUpdated fs (snd (updateChildren_loop cs fs (b, s))) c"
proof (induction cs arbitrary: b s)
  case Nil
  then show ?case by simp
next
  case (Cons a cs)
  show ?case
  proof (cases "c = a")
    case True
    have "viewUpdated fs (snd (updateTile s a fs)) a" by simp
    from updateChildren_loop_viewUpdated[OF this, of cs "b \<or> fst (updateTile s a fs)"] True
    show ?thesis by (simp add: split_def Let_def)
  next
    case False
    with Cons.prems have "c \<in> set cs" by simp
    from Cons.IH[OF this, of "b \<or> fst (updateTile s a fs)" "snd (updateTile s a fs)"]
    show ?thesis by (simp add: split_def Let_def)
  qed
qed

lemma getVisibility_states:
  "u \<notin> set (children (tiles s t)) \<Longrightarrow> states (snd (getVisibility s t mse fs)) u = states s u"
  by (simp add: getVisibility_def Let_def split_def updateChildren_def
        updateChildren_loop_states)

lemma getVisibility_True_mask:
  "fst (getVisibility s t mse fs) \<Longrightarrow> visibilityPlaneMask (states s t) \<noteq> MASK_OUTSIDE"
  by (auto simp: getVisibility_def Let_def split_def split: if_splits)

lemma updateVisibility_states_other:
  "u \<notin> set (children (tiles s t)) \<Longrightarrow> u \<noteq> t
     \<Longrightarrow> states (snd (updateVisibility s t mse fs)) u = states s u"
  by (simp add: updateVisibility_def Let_def split_def update_tile_def getVisibility_states)

lemma updateVisibility_states_self:
  assumes "t \<notin> set (children (tiles s t))"
  shows "states (snd (updateVisibility s t mse fs)) t =
           (states s t)\<lparr>visibilityPlaneMask :=
              (if fst (updateVisibility s t mse fs) then visibilityPlaneMask (states s t)
               else MASK_OUTSIDE)\<rparr>"
proof (cases "touchedFrame (states s t) = frameNumber fs")
  case True
  then show ?thesis by (simp add: updateVisibility_def)
next
  case False
  show ?thesis
  proof (cases "fst (getVisibility s t mse fs)")
    case True
    from getVisibility_True_mask[OF True] True False assms show ?thesis
      by (simp add: updateVisibility_def Let_def split_def update_tile_def getVisibility_states)
  next
    case f: False
    with False assms show ?thesis
      by (simp add: updateVisibility_def Let_def split_def update_tile_def getVisibility_states)
  qed
qed

text \<open>
  When the root is visible, was not touched in the frame before and does not meet the
  budget, the computation of its visibility has updated its children.
\<close>

lemma getVisibility_early:
  "visibilityPlaneMask (states s t) = MASK_OUTSIDE \<or>
   (hasTilesetContent (tiles s t) \<and> contentExpired (tiles s t)) \<or>
   (case parent (tiles s t) of
      Some p \<Rightarrow> refine (tiles s p) = ADD \<and>
                getScreenSpaceError s (geometricError (tiles s p)) t fs \<le> mse
    | None \<Rightarrow> False)
   \<Longrightarrow> getVisibility s t mse fs = (False, s)"
  by (auto simp: getVisibility_def)

lemma getVisibility_late:
  assumes "\<not> visibilityPlaneMask (states s t) = MASK_OUTSIDE"
    "\<not> (hasTilesetContent (tiles s t) \<and> contentExpired (tiles s t))"
    "\<not> (case parent (tiles s t) of
          Some p \<Rightarrow> refine (tiles s p) = ADD \<and>
                    getScreenSpaceError s (geometricError (tiles s p)) t fs \<le> mse
        | None \<Rightarrow> False)"
  shows "getVisibility s t mse fs =
        (let replace = (refine (tiles s t) = REPLACE);
             useOptimization = (optimChildrenWithinParent (tiles s t) = USE_OPTIMIZATION);
             meetsScreenSpaceError = (screenSpaceError (states s t) \<le> mse);
             (anyChildrenVisible, s1) =
               (if (\<not> meetsScreenSpaceError \<or> useOptimization) \<and> children (tiles s t) \<noteq> []
                then updateChildren s t fs else (True, s))
         in if replace \<and> useOptimization \<and> \<not> anyChildrenVisible then
              (False, s1\<lparr>statistics_numberOfTilesCulledWithChildrenUnion :=
                           Suc (statistics_numberOfTilesCulledWithChildrenUnion s1)\<rparr>)
            else (True, s1))"
  unfolding getVisibility_def using assms by (simp only: if_False simp_thms)

lemma getVisibility_late_children:
  assumes a: "\<not> screenSpaceError (states s t) \<le> mse" "children (tiles s t) \<noteq> []"
  shows "(let replace = (refine (tiles s t) = REPLACE);
             useOptimization = (optimChildrenWithinParent (tiles s t) = USE_OPTIMIZATION);
             meetsScreenSpaceError = (screenSpaceError (states s t) \<le> mse);
             (anyChildrenVisible, s1) =
               (if (\<not> meetsScreenSpaceError \<or> useOptimization) \<and> children (tiles s t) \<noteq> []
                then updateChildren s t fs else (True, s))
         in if replace \<and> useOptimization \<and> \<not> anyChildrenVisible then
              (False, s1\<lparr>statistics_numberOfTilesCulledWithChildrenUnion :=
                           Suc (statistics_numberOfTilesCulledWithChildrenUnion s1)\<rparr>)
            else (True, s1)) =
     (if refine (tiles s t) = REPLACE \<and> optimChildrenWithinParent (tiles s t) = USE_OPTIMIZATION
          \<and> \<not> fst (updateChildren s t fs)
      then (False, (snd (updateChildren s t fs))\<lparr>statistics_numberOfTilesCulledWithChildrenUnion :=
                           Suc (statistics_numberOfTilesCulledWithChildrenUnion (snd (updateChildren s t fs)))\<rparr>)
      else (True, snd (updateChildren s t fs)))"
  using a by (simp add: Let_def split_def)

lemma fst_of_if_pair:
  assumes "g = (if C then (False, X) else (True, Y))" "fst g"
  shows "snd g = Y"
  using assms by (simp split: if_splits)

lemma getVisibility_updates_children:
  assumes "fst (getVisibility s t mse fs)" and "\<not> screenSpaceError (states s t) \<le> mse"
    and "c \<in> set (children (tiles s t))"
  shows "viewUpdated fs (snd (getVisibility s t mse fs)) c"
proof -
  from assms(3) have ne: "children (tiles s t) \<noteq> []" by auto
  have early: "\<not> visibilityPlaneMask (states s t) = MASK_OUTSIDE"
    "\<not> (hasTilesetContent (tiles s t) \<and> contentExpired (tiles s t))"
    "\<not> (case parent (tiles s t) of
          Some p \<Rightarrow> refine (tiles s p) = ADD \<and>
                    getScreenSpaceError s (geometricError (tiles s p)) t fs \<le> mse
        | None \<Rightarrow> False)"
    using assms(1) getVisibility_early[of s t fs mse] by auto
  have "snd (getVisibility s t mse fs) = snd (updateChildren s t fs)"
    by (rule fst_of_if_pair[OF trans[OF getVisibility_late[OF early]
                               getVisibility_late_children[OF assms(2) ne]] assms(1)])
  with assms(3) show ?thesis
    by (simp add: updateChildren_def updateChildren_loop_viewUpdated_child)
qed

lemma selectTiles_rootVisible_updates_children:
  assumes rv: "fst (selectTiles_rootVisible s fs)"
    and fresh: "touchedFrame (states s (rootTile s)) \<noteq> frameNumber fs"
    and big: "\<not> frameScreenSpaceError s (geometricError (tiles s (rootTile s))) (rootTile s) fs
                \<le> maximumScreenSpaceError s"
    and c: "c \<in> set (children (tiles s (rootTile s)))"
  shows "viewUpdated fs (snd (selectTiles_rootVisible s fs)) c"
proof -
  let ?r = "rootTile s"
  let ?s2 = "snd (updateTile s ?r fs)"
  have u: "viewUpdated fs ?s2 ?r" by simp
  then have sse: "screenSpaceError (states ?s2 ?r)
                    = frameScreenSpaceError s (geometricError (tiles s ?r)) ?r fs"
    using frameScreenSpaceError_cong[of ?s2 s] by (simp add: viewUpdated_def)
  from rv have v1: "fst (updateTile s ?r fs)"
    and v2: "fst (updateVisibility ?s2 ?r (maximumScreenSpaceError s) fs)"
    by (auto simp: selectTiles_rootVisible_def Let_def split_def split: if_splits)
  from fresh have nt: "touchedFrame (states ?s2 ?r) \<noteq> frameNumber fs" by simp
  from v2 nt have g: "fst (getVisibility ?s2 ?r (maximumScreenSpaceError s) fs)"
    by (auto simp: updateVisibility_def Let_def split_def update_tile_def split: if_splits)
  from getVisibility_updates_children[OF g, of c] sse big c
  have "viewUpdated fs (snd (getVisibility ?s2 ?r (maximumScreenSpaceError s) fs)) c"
    by simp
  then have "viewUpdated fs (snd (updateVisibility ?s2 ?r (maximumScreenSpaceError s) fs)) c"
    using nt by (simp add: updateVisibility_def Let_def split_def)
  with v1 show ?thesis
    by (simp add: selectTiles_rootVisible_def Let_def split_def)
qed

section \<open>A root and its one child\<close>

lemma executeInternalBaseTraversal_childless:
  "children (tiles s c) = []
     \<Longrightarrow> executeInternalBaseTraversal (Suc n) s c mse fs = Some (contentAvailable (tiles s c), s)"
  by (simp add: executeInternalBaseTraversal_def executeInternalBaseTraversal_visit_def)

text \<open>
  The walk over one child without children and without available content: the child is
  asked for, goes onto the stack if it is visible, and the parent does not refine.
\<close>

lemma executeBaseTraversal_children_single:
  assumes "children (tiles s c) = []" and "\<not> contentAvailable (tiles s c)"
  shows "executeBaseTraversal_children (Suc n) mse fs True False [c] (True, stack, s) =
           Some (False,
                 (if fst (updateVisibility s c mse fs) then c # stack else stack),
                 loadAndTouch (snd (updateVisibility s c mse fs)) c fs)"
  using assms
  by (simp add: executeBaseTraversal_child_unfold Let_def
        executeInternalBaseTraversal_childless)

lemma executeBaseTraversal_loop_childless:
  assumes "children (tiles s c) = []"
  shows "executeBaseTraversal_loop (Suc n) mse fs [c] fr s =
           Some (executeBaseTraversal_finish (visitTile s c fs) c (refine (tiles s c) = ADD) False
                   (refine (tiles s c) = REPLACE \<and> contentAvailable (tiles s c))
                   (case parent (tiles s c) of None \<Rightarrow> True | Some p \<Rightarrow> refines (states s p))
                   False fr)"
  using assms
  by (simp add: executeBaseTraversal_visit_unfold split_def cong: option.case_cong)

lemma viewUpdated_finish [simp]:
  "viewUpdated fs (snd (executeBaseTraversal_finish s tile ad tr rc pr r1 fr)) u = viewUpdated fs s u"
  by (simp add: executeBaseTraversal_finish_def Let_def)

lemma viewUpdated_selectTile [simp]:
  "viewUpdated fs (selectTile s t fs) u = viewUpdated fs s u"
  by (simp add: viewUpdated_def frameScreenSpaceError_def getScreenSpaceError_def
        selectTile_def update_tile_def Let_def)

lemma viewUpdated_selectTiles_each [simp]:
  "viewUpdated fs (selectTiles_each ts fs s) u = viewUpdated fs s u"
  by (induction ts arbitrary: s) simp_all

text \<open>
  The base traversal from a root that does not meet the budget and has one child, which
  has no children and no available content: the root becomes the only leaf, and the
  child is requested if its content is unloaded and it was not touched in the frame.
\<close>

lemma executeBaseTraversal_root_and_child:
  assumes r: "parent (tiles s r) = None" "children (tiles s r) = [c]"
      "refine (tiles s r) = REPLACE" "contentAvailable (tiles s r)"
    and c: "c \<noteq> r" "parent (tiles s c) = Some r" "children (tiles s c) = []"
      "\<not> contentAvailable (tiles s c)" "contentUnloaded (tiles s c)"
    and big: "mse < screenSpaceError (states s r)"
    and fresh: "touchedFrame (states s c) \<noteq> frameNumber fs"
  shows "\<exists>fr s'. executeBaseTraversal (Suc (Suc fuel)) s r mse fs = Some (fr, s') \<and>
           tiles s' = tiles s \<and> leaves s' = [r] \<and> desiredTiles s' = desiredTiles s \<and>
           selectedTiles s' = selectedTiles s \<and>
           requestedTiles s' = requestedTiles s @ [c] \<and>
           (viewUpdated fs s c \<longrightarrow> viewUpdated fs s' c) \<and>
           visibilityPlaneMask (states s' r) = visibilityPlaneMask (states s r) \<and>
           (visibilityPlaneMask (states s' c) = visibilityPlaneMask (states s c) \<or>
            visibilityPlaneMask (states s' c) = MASK_OUTSIDE)"
proof -
  let ?s0 = "s\<lparr>leaves := []\<rparr>"
  let ?sv = "visitTile ?s0 r fs"
  let ?uv = "updateVisibility ?sv c mse fs"
  let ?s2 = "loadAndTouch (snd ?uv) c fs"
  let ?f1 = "executeBaseTraversal_finish ?s2 r False True True True False True"
  let ?s3 = "snd ?f1"
  let ?f2 = "executeBaseTraversal_finish (visitTile ?s3 c fs) c (refine (tiles s c) = ADD)
               False (refine (tiles s c) = REPLACE \<and> contentAvailable (tiles s c))
               False False (fst ?f1)"
  have tv: "tiles ?sv = tiles s" by simp
  have kids: "executeBaseTraversal_children (Suc fuel) mse fs True False [c] (True, [], ?sv) =
                Some (False, (if fst ?uv then [c] else []), ?s2)"
    using executeBaseTraversal_children_single[of ?sv c fuel mse fs "[]"] c by (simp add: tv)
  have visit: "executeBaseTraversal_visit (Suc fuel) ?s0 r mse fs [] True =
                 Some ((if fst ?uv then [c] else []), ?f1)"
    using r big kids by (simp add: executeBaseTraversal_visit_unfold)
  have t3: "tiles ?s3 = tiles s" by simp
  have rf: "\<not> refines (states ?s3 r)" by simp
  have rest: "executeBaseTraversal_loop (Suc fuel) mse fs (if fst ?uv then [c] else []) (fst ?f1) ?s3
                = Some (if fst ?uv then ?f2 else ?f1)"
    using c rf executeBaseTraversal_loop_childless[of ?s3 c fuel mse fs "fst ?f1"]
    by (simp add: t3)
  have run: "executeBaseTraversal (Suc (Suc fuel)) s r mse fs
               = Some (if fst ?uv then ?f2 else ?f1)"
    using visit rest by (simp add: executeBaseTraversal_def split_def)
  have self: "states (snd ?uv) c =
                (states ?sv c)\<lparr>visibilityPlaneMask :=
                   (if fst ?uv then visibilityPlaneMask (states ?sv c) else MASK_OUTSIDE)\<rparr>"
    using updateVisibility_states_self[of c ?sv mse fs] c by (simp add: tv)
  have other: "states (snd ?uv) r = states ?sv r"
    using updateVisibility_states_other[of r ?sv c mse fs] c by (simp add: tv)
  have tc: "touchedFrame (states (snd ?uv) c) \<noteq> frameNumber fs"
    using fresh by simp
  show ?thesis
  proof (cases "fst ?uv")
    case True
    with run have "executeBaseTraversal (Suc (Suc fuel)) s r mse fs = Some (fst ?f2, snd ?f2)"
      by simp
    with True self other tc c r show ?thesis
      by (intro exI[of _ "fst ?f2"] exI[of _ "snd ?f2"])
         (simp add: updateVisibility_viewUpdated)
  next
    case False
    with run have "executeBaseTraversal (Suc (Suc fuel)) s r mse fs = Some (fst ?f1, snd ?f1)"
      by simp
    with False self other tc c r show ?thesis
      by (intro exI[of _ "fst ?f1"] exI[of _ "snd ?f1"])
         (simp add: updateVisibility_viewUpdated)
  qed
qed


lemma getVisibility_visible_state:
  assumes "fst (getVisibility s t mse fs)" and "\<not> screenSpaceError (states s t) \<le> mse"
    and "children (tiles s t) \<noteq> []"
  shows "snd (getVisibility s t mse fs) = snd (updateChildren s t fs)"
proof -
  have early: "\<not> visibilityPlaneMask (states s t) = MASK_OUTSIDE"
    "\<not> (hasTilesetContent (tiles s t) \<and> contentExpired (tiles s t))"
    "\<not> (case parent (tiles s t) of
          Some p \<Rightarrow> refine (tiles s p) = ADD \<and>
                    getScreenSpaceError s (geometricError (tiles s p)) t fs \<le> mse
        | None \<Rightarrow> False)"
    using assms(1) getVisibility_early[of s t fs mse] by auto
  show ?thesis
    by (rule fst_of_if_pair[OF trans[OF getVisibility_late[OF early]
                               getVisibility_late_children[OF assms(2,3)]] assms(1)])
qed

text \<open>
  The state after the visibility of the root has been computed, when the root is
  visible, was not touched in the frame before and does not meet the budget: the root
  and then its children have been updated, and nothing else has changed.
\<close>

lemma selectTiles_rootVisible_state:
  assumes rv: "fst (selectTiles_rootVisible s fs)"
    and fresh: "touchedFrame (states s (rootTile s)) \<noteq> frameNumber fs"
    and big: "\<not> frameScreenSpaceError s (geometricError (tiles s (rootTile s))) (rootTile s) fs
                \<le> maximumScreenSpaceError s"
    and kids: "children (tiles s (rootTile s)) \<noteq> []"
  shows "\<exists>m. snd (selectTiles_rootVisible s fs) =
           update_tile (rootTile s) (\<lambda>x. x\<lparr>visibilityPlaneMask := m\<rparr>)
             (snd (updateChildren (snd (updateTile s (rootTile s) fs)) (rootTile s) fs)) \<and>
           m = visibilityPlaneMask
                 (states (snd (updateChildren (snd (updateTile s (rootTile s) fs)) (rootTile s) fs))
                    (rootTile s))"
proof -
  let ?r = "rootTile s"
  let ?s2 = "snd (updateTile s ?r fs)"
  have u: "viewUpdated fs ?s2 ?r" by simp
  then have sse: "screenSpaceError (states ?s2 ?r)
                    = frameScreenSpaceError s (geometricError (tiles s ?r)) ?r fs"
    using frameScreenSpaceError_cong[of ?s2 s] by (simp add: viewUpdated_def)
  from rv have v1: "fst (updateTile s ?r fs)"
    and v2: "fst (updateVisibility ?s2 ?r (maximumScreenSpaceError s) fs)"
    by (auto simp: selectTiles_rootVisible_def Let_def split_def split: if_splits)
  from fresh have nt: "touchedFrame (states ?s2 ?r) \<noteq> frameNumber fs" by simp
  from v2 nt have g: "fst (getVisibility ?s2 ?r (maximumScreenSpaceError s) fs)"
    by (auto simp: updateVisibility_def Let_def split_def update_tile_def split: if_splits)
  have "snd (getVisibility ?s2 ?r (maximumScreenSpaceError s) fs) = snd (updateChildren ?s2 ?r fs)"
    using getVisibility_visible_state[OF g] sse big kids by simp
  with g nt v1 show ?thesis
    by (simp add: selectTiles_rootVisible_def updateVisibility_def Let_def split_def)
qed


text \<open>
  C4, as amended. The tileset is not frozen; its root (no parent, REPLACE, geometric
  error 10, content available) is visible and has one child (geometric error 0, content
  unloaded, no children); \<open>maximumScreenSpaceError\<close> is 16 and the screen-space error of
  the root in the view is 20; neither tile was touched in the frame before. Then a call
  of \<open>selectTiles\<close> returns, and it has updated the child for the frame: distance,
  screen-space error and plane mask are those of the view. If the screen-space error of
  the geometric error of the tileset itself is within 16, nothing is requested or
  selected. Otherwise the child is pushed onto \<open>requestedTiles\<close> (after the root, if the
  content of the root has expired), and \<open>selectedTiles\<close> is exactly the root if the root
  passes the check of \<open>selectTile\<close>, and empty if it does not.
\<close>

theorem selectTiles_root_with_unloaded_child:
  assumes nf: "\<not> debugFreezeFrame s"
    and root: "parent (tiles s (rootTile s)) = None" "children (tiles s (rootTile s)) = [c]"
      "refine (tiles s (rootTile s)) = REPLACE" "geometricError (tiles s (rootTile s)) = 10"
      "contentAvailable (tiles s (rootTile s))"
    and child: "c \<noteq> rootTile s" "parent (tiles s c) = Some (rootTile s)"
      "children (tiles s c) = []" "geometricError (tiles s c) = 0"
      "contentUnloaded (tiles s c)" "\<not> contentAvailable (tiles s c)"
    and mse: "maximumScreenSpaceError s = 16"
    and sse: "frameScreenSpaceError s 10 (rootTile s) fs = 20"
    and fresh: "touchedFrame (states s (rootTile s)) \<noteq> frameNumber fs"
      "touchedFrame (states s c) \<noteq> frameNumber fs"
    and rv: "fst (selectTiles_rootVisible (selectTiles_reset s) fs)"
  shows "\<exists>s'. selectTiles (Suc (Suc fuel)) s fs = Some (Inr s') \<and>
           viewUpdated fs s' c \<and>
           (visibilityPlaneMask (states s' c) = MASK_OUTSIDE \<or>
            visibilityPlaneMask (states s' c)
              = visibility fs c (visibility fs (rootTile s) MASK_INDETERMINATE)) \<and>
           (if frameScreenSpaceError s (tileset_geometricError s) (rootTile s) fs \<le> 16
            then requestedTiles s' = [] \<and> selectedTiles s' = []
            else requestedTiles s' =
                   (if contentUnloaded (tiles s (rootTile s)) \<or> contentExpired (tiles s (rootTile s))
                    then [rootTile s, c] else [c]) \<and>
                 selectedTiles s' =
                   (if visibility fs (rootTile s) MASK_INDETERMINATE = MASK_INSIDE \<or>
                       contentVisibility fs (rootTile s) \<noteq> OUTSIDE
                    then [rootTile s] else []))"
proof -
  let ?r = "rootTile s"
  let ?s1 = "selectTiles_reset s"
  let ?s2 = "snd (updateTile ?s1 ?r fs)"
  let ?s3 = "snd (selectTiles_rootVisible ?s1 fs)"
  let ?mr = "visibility fs ?r MASK_INDETERMINATE"
  have big: "\<not> frameScreenSpaceError ?s1 (geometricError (tiles ?s1 (rootTile ?s1))) (rootTile ?s1) fs
               \<le> maximumScreenSpaceError ?s1"
    using sse root(4) mse frameScreenSpaceError_cong[of ?s1 s 10 ?r fs]
    by (simp add: selectTiles_reset_def)
  have fr1: "touchedFrame (states ?s1 (rootTile ?s1)) \<noteq> frameNumber fs"
    using fresh(1) by simp
  have kids1: "children (tiles ?s1 (rootTile ?s1)) \<noteq> []" using root(2) by simp
  from selectTiles_rootVisible_state[OF rv fr1 big kids1] obtain m
    where s3: "?s3 = update_tile ?r (\<lambda>x. x\<lparr>visibilityPlaneMask := m\<rparr>)
                       (snd (updateChildren ?s2 ?r fs))"
      and m: "m = visibilityPlaneMask (states (snd (updateChildren ?s2 ?r fs)) ?r)"
    by auto
  from rv have v1: "fst (updateTile ?s1 ?r fs)"
    by (auto simp: selectTiles_rootVisible_def Let_def split_def split: if_splits)
  have uc: "snd (updateChildren ?s2 ?r fs) = snd (updateTile ?s2 c fs)"
    using root(2) by (simp add: updateChildren_def split_def)
  have mr: "visibilityPlaneMask (states ?s3 ?r) = ?mr"
    using child(1) v1 root(1) by (simp add: s3 m uc update_tile_def updateTile_states)
  have mc: "visibilityPlaneMask (states ?s3 c) = MASK_OUTSIDE \<or>
            visibilityPlaneMask (states ?s3 c) = visibility fs c ?mr"
    using child(1,2) v1 root(1) by (simp add: s3 uc update_tile_def updateTile_states)
  have vc: "viewUpdated fs ?s3 c"
    using selectTiles_rootVisible_updates_children[OF rv fr1 big, of c] root(2) by simp
  have vr: "viewUpdated fs ?s3 ?r"
    using selectTiles_rootVisible_viewUpdated[of fs ?s1] by simp
  have sr: "screenSpaceError (states ?s3 ?r) = 20"
    using vr sse root(4) frameScreenSpaceError_cong[of ?s3 s 10 ?r fs]
    by (simp add: viewUpdated_def selectTiles_reset_def)
  show ?thesis
  proof (cases "frameScreenSpaceError s (tileset_geometricError s) ?r fs \<le> 16")
    case True
    with mse vc mc show ?thesis
      by (simp add: selectTiles_def selectTiles_begin_unfold[OF nf rv])
  next
    case False
    let ?s5 = "(loadAndTouch ?s3 ?r fs)\<lparr>priv_skipLevelOfDetail := False\<rparr>"
    have b: "selectTiles_begin s fs = Inr ?s5"
      using False mse by (simp add: selectTiles_begin_unfold[OF nf rv])
    have t5: "tiles ?s5 = tiles s" by simp
    have "\<exists>fr s'. executeBaseTraversal (Suc (Suc fuel)) ?s5 ?r 16 fs = Some (fr, s') \<and>
           tiles s' = tiles ?s5 \<and> leaves s' = [?r] \<and> desiredTiles s' = desiredTiles ?s5 \<and>
           selectedTiles s' = selectedTiles ?s5 \<and>
           requestedTiles s' = requestedTiles ?s5 @ [c] \<and>
           (viewUpdated fs ?s5 c \<longrightarrow> viewUpdated fs s' c) \<and>
           visibilityPlaneMask (states s' ?r) = visibilityPlaneMask (states ?s5 ?r) \<and>
           (visibilityPlaneMask (states s' c) = visibilityPlaneMask (states ?s5 c) \<or>
            visibilityPlaneMask (states s' c) = MASK_OUTSIDE)"
      using root child fresh(2) sr
      by (intro executeBaseTraversal_root_and_child) (simp_all add: t5)
    then obtain fr s6
      where e: "executeBaseTraversal (Suc (Suc fuel)) ?s5 ?r 16 fs = Some (fr, s6)"
        and t6: "tiles s6 = tiles s" and l6: "leaves s6 = [?r]" and d6: "desiredTiles s6 = []"
        and sel6: "selectedTiles s6 = []"
        and r6: "requestedTiles s6 = requestedTiles ?s5 @ [c]"
        and v6: "viewUpdated fs s6 c"
        and mr6: "visibilityPlaneMask (states s6 ?r) = ?mr"
        and mc6: "visibilityPlaneMask (states s6 c) = visibilityPlaneMask (states ?s3 c) \<or>
                  visibilityPlaneMask (states s6 c) = MASK_OUTSIDE"
      using vc mr by (auto simp: t5)
    let ?s' = "selectTiles_each (desiredTiles s6) fs (selectTiles_each (leaves s6) fs s6)"
    have run: "selectTiles (Suc (Suc fuel)) s fs = Some (Inr ?s')"
      using e mse
      by (simp add: selectTiles_def b chosenTraversal_def selectBaseTraversal_def Let_def)
    have req: "requestedTiles ?s' =
                 (if contentUnloaded (tiles s ?r) \<or> contentExpired (tiles s ?r)
                  then [?r, c] else [c])"
      using r6 fresh(1) by simp
    have sel: "selectedTiles ?s' =
                 (if ?mr = MASK_INSIDE \<or> contentVisibility fs ?r \<noteq> OUTSIDE then [?r] else [])"
      using sel6 l6 d6 mr6 t6 root(5)
      by (simp add: selectTile_selectedTiles passesContentVisibility_def)
    from run req sel v6 mc6 mc False show ?thesis
      by (intro exI[of _ ?s']) auto
  qed
qed

theorem selectTiles_root_with_unloaded_child_witness:
  "\<exists>s'. selectTiles (Suc (Suc 0)) (example_tileset 10 root_and_child) example_frame
           = Some (Inr s') \<and>
        viewUpdated example_frame s' 1 \<and>
        requestedTiles s' = [1] \<and> selectedTiles s' = [0]"
proof -
  let ?s = "example_tileset 10 root_and_child"
  have h: "\<not> debugFreezeFrame ?s"
    "parent (tiles ?s (rootTile ?s)) = None" "children (tiles ?s (rootTile ?s)) = [1]"
    "refine (tiles ?s (rootTile ?s)) = REPLACE" "geometricError (tiles ?s (rootTile ?s)) = 10"
    "contentAvailable (tiles ?s (rootTile ?s))"
    "1 \<noteq> rootTile ?s" "parent (tiles ?s 1) = Some (rootTile ?s)"
    "children (tiles ?s 1) = []" "geometricError (tiles ?s 1) = 0"
    "contentUnloaded (tiles ?s 1)" "\<not> contentAvailable (tiles ?s 1)"
    "maximumScreenSpaceError ?s = 16"
    "touchedFrame (states ?s (rootTile ?s)) \<noteq> frameNumber example_frame"
    "touchedFrame (states ?s 1) \<noteq> frameNumber example_frame"
    by (simp_all add: example_defs)
  have sse: "frameScreenSpaceError ?s 10 (rootTile ?s) example_frame = 20"
    by (simp add: frameScreenSpaceError_def example_defs model_defs)
  have rv: "fst (selectTiles_rootVisible (selectTiles_reset ?s) example_frame)"
    by (simp add: example_defs model_defs)
  have big: "\<not> frameScreenSpaceError ?s (tileset_geometricError ?s) (rootTile ?s) example_frame \<le> 16"
    by (simp add: frameScreenSpaceError_def example_defs model_defs)
  have q: "\<not> contentUnloaded (tiles ?s (rootTile ?s))" "\<not> contentExpired (tiles ?s (rootTile ?s))"
    "visibility example_frame 1 (visibility example_frame (rootTile ?s) MASK_INDETERMINATE) = MASK_INDETERMINATE"
    "MASK_INDETERMINATE \<noteq> MASK_OUTSIDE" "contentVisibility example_frame (rootTile ?s) \<noteq> OUTSIDE"
    "rootTile ?s = 0"
    by (simp_all add: example_defs MASK_INDETERMINATE_def MASK_OUTSIDE_def)
  from selectTiles_root_with_unloaded_child[OF h(1-13) sse h(14,15) rv, of 0] big q
  show ?thesis by auto
qed

text \<open>
  The claim as stated fails in two ways. Where the geometric error of the tileset itself
  is within the budget (here 0), \<open>selectTiles\<close> returns before any traversal: nothing is
  requested and nothing is selected, although the screen-space error of the root is 20.
  And where the test of the content bounds of the root answers \<open>OUTSIDE\<close>, the child is
  requested but the root is not selected.
\<close>

theorem selectTiles_root_not_selected_counterexample:
  "frameScreenSpaceError (example_tileset 0 root_and_child) 10 0 example_frame = 20 \<and>
   fst (selectTiles_rootVisible (selectTiles_reset (example_tileset 0 root_and_child)) example_frame) \<and>
   map_option (map_sum id (\<lambda>s'. (requestedTiles s', selectedTiles s')))
       (selectTiles (Suc (Suc 0)) (example_tileset 0 root_and_child) example_frame)
     = Some (Inr ([], [])) \<and>
   frameScreenSpaceError (example_tileset 10 root_and_child) 10 0 content_outside_frame = 20 \<and>
   fst (selectTiles_rootVisible (selectTiles_reset (example_tileset 10 root_and_child))
          content_outside_frame) \<and>
   map_option (map_sum id (\<lambda>s'. (requestedTiles s', selectedTiles s')))
       (selectTiles (Suc (Suc 0)) (example_tileset 10 root_and_child) content_outside_frame)
     = Some (Inr ([1], []))"
  by (simp add: frameScreenSpaceError_def content_outside_frame_def example_defs model_defs)

section \<open>The loops end on a tree\<close>

















section \<open>A parent that waits for a child\<close>




section \<open>The traversal of a tree, turn by turn\<close>


lemma selectTiles_each_refines [simp]:
  "refines (states (selectTiles_each ts fs s) u) = refines (states s u)"
  by (induction ts arbitrary: s) (simp_all add: selectTile_def Let_def update_tile_def)








section \<open>A parent with one child not yet available\<close>





section \<open>The error metric in rounded arithmetic\<close>

lemma getScreenSpaceError_rounded_exact:
  "getScreenSpaceError_rounded (\<lambda>x. x) s ge t fs = getScreenSpaceError s ge t fs"
  by (simp add: getScreenSpaceError_rounded_def getScreenSpaceError_def)

lemma roundTiesToEven_range: "\<lfloor>x\<rfloor> \<le> roundTiesToEven x \<and> roundTiesToEven x \<le> \<lfloor>x\<rfloor> + 1"
  by (simp add: roundTiesToEven_def)

lemma roundTiesToEven_of_int [simp]: "roundTiesToEven (of_int n) = n"
  by (simp add: roundTiesToEven_def)

lemma roundTiesToEven_mono:
  assumes "x \<le> y"
  shows "roundTiesToEven x \<le> roundTiesToEven y"
proof (cases "\<lfloor>x\<rfloor> = \<lfloor>y\<rfloor>")
  case True
  with assms have "frac x \<le> frac y" by (simp add: frac_def)
  with True show ?thesis by (auto simp: roundTiesToEven_def)
next
  case False
  with assms have "\<lfloor>x\<rfloor> + 1 \<le> \<lfloor>y\<rfloor>" using floor_mono[OF assms] by linarith
  with roundTiesToEven_range[of x] roundTiesToEven_range[of y] show ?thesis by linarith
qed

lemma roundTiesToEven_near:
  assumes "of_int n - 1 / 2 < x" and "x < of_int n + 1 / 2"
  shows "roundTiesToEven x = n"
proof (cases "of_int n \<le> x")
  case True
  with assms have f: "\<lfloor>x\<rfloor> = n" by (intro floor_unique) simp_all
  with assms have "frac x < 1 / 2" by (simp add: frac_def)
  with f show ?thesis by (simp add: roundTiesToEven_def)
next
  case False
  with assms have f: "\<lfloor>x\<rfloor> = n - 1" by (intro floor_unique) simp_all
  with assms have "1 / 2 < frac x" by (simp add: frac_def)
  with f show ?thesis by (simp add: roundTiesToEven_def)
qed


lemma binary64_zero [simp]: "binary64 0 = 0"
  by (simp add: binary64_def)

lemma binary64_minus: "binary64 (- x) = - binary64 x"
  by (simp add: binary64_def sgn_minus)

lemma binary64_eval:
  assumes "0 < x" and "2 powr of_int e \<le> x" and "x < 2 powr (of_int e + 1)"
  shows "binary64 x =
           of_int (roundTiesToEven (x / 2 powr (of_int e - 52))) * 2 powr (of_int e - 52)"
proof -
  from assms have "\<lfloor>log 2 x\<rfloor> = e"
    by (simp add: floor_log_eq_powr_iff)
  with assms(1) show ?thesis by (simp add: binary64_def Let_def)
qed

lemma binary64_bounds:
  assumes "0 < x"
  shows "2 powr of_int \<lfloor>log 2 x\<rfloor> \<le> binary64 x"
    and "binary64 x \<le> 2 powr (of_int \<lfloor>log 2 x\<rfloor> + 1)"
proof -
  define e where "e = \<lfloor>log 2 x\<rfloor>"
  define u :: real where "u = 2 powr (of_int e - 52)"
  have u: "0 < u" by (simp add: u_def)
  from assms have b: "2 powr of_int e \<le> x" "x < 2 powr (of_int e + 1)"
    using floor_log_eq_powr_iff[of x 2 e] by (simp_all add: e_def)
  have lo: "2 powr of_int e = of_int (2 ^ 52) * u"
    by (simp add: u_def powr_diff)
  have hi: "2 powr (of_int e + 1) = of_int (2 ^ 53) * u"
    by (simp add: u_def powr_diff powr_add)
  have v: "binary64 x = of_int (roundTiesToEven (x / u)) * u"
    using binary64_eval[OF assms b] by (simp add: u_def)
  from b(1) u have "of_int (2 ^ 52) \<le> x / u" by (simp add: lo pos_le_divide_eq)
  from roundTiesToEven_mono[OF this] roundTiesToEven_of_int[of "2 ^ 52"]
  have "2 ^ 52 \<le> roundTiesToEven (x / u)" by simp
  then have "of_int (2 ^ 52) * u \<le> of_int (roundTiesToEven (x / u)) * u"
    using u by (intro mult_right_mono) simp_all
  then show "2 powr of_int \<lfloor>log 2 x\<rfloor> \<le> binary64 x"
    by (simp add: v lo e_def[symmetric])
  from b(2) u have "x / u \<le> of_int (2 ^ 53)" by (simp add: hi pos_divide_le_eq)
  from roundTiesToEven_mono[OF this] roundTiesToEven_of_int[of "2 ^ 53"]
  have "roundTiesToEven (x / u) \<le> 2 ^ 53" by simp
  then have "of_int (roundTiesToEven (x / u)) * u \<le> of_int (2 ^ 53) * u"
    using u by (intro mult_right_mono) simp_all
  then show "binary64 x \<le> 2 powr (of_int \<lfloor>log 2 x\<rfloor> + 1)"
    by (simp add: v hi e_def[symmetric])
qed

lemma binary64_pos: "0 < x \<Longrightarrow> 0 < binary64 x"
  using binary64_bounds(1)[of x] by (smt (verit) powr_gt_zero)

lemma binary64_mono_pos:
  assumes "0 < x" and "x \<le> y"
  shows "binary64 x \<le> binary64 y"
proof -
  from assms have y: "0 < y" by simp
  define e where "e = \<lfloor>log 2 x\<rfloor>"
  define f where "f = \<lfloor>log 2 y\<rfloor>"
  from assms y have ef: "e \<le> f" by (simp add: e_def f_def floor_mono)
  show ?thesis
  proof (cases "e = f")
    case True
    define u :: real where "u = 2 powr (of_int e - 52)"
    have u: "0 < u" by (simp add: u_def)
    from assms(2) u have "x / u \<le> y / u" by (simp add: divide_right_mono)
    from roundTiesToEven_mono[OF this] u
    have "of_int (roundTiesToEven (x / u)) * u \<le> of_int (roundTiesToEven (y / u)) * u"
      by (intro mult_right_mono) simp_all
    with assms(1) y True show ?thesis
      by (simp add: binary64_def Let_def e_def[symmetric] f_def[symmetric] u_def)
  next
    case False
    with ef have "of_int e + (1::real) \<le> of_int f" by linarith
    then have p: "(2::real) powr (of_int e + 1) \<le> 2 powr of_int f"
      by (intro powr_mono) simp_all
    have "binary64 x \<le> 2 powr (of_int e + 1)"
      unfolding e_def by (rule binary64_bounds(2)[OF assms(1)])
    also note p
    also have "2 powr of_int f \<le> binary64 y"
      unfolding f_def by (rule binary64_bounds(1)[OF y])
    finally show ?thesis .
  qed
qed

lemma binary64_mono: "mono binary64"
proof (rule monoI)
  fix x y :: real
  assume le: "x \<le> y"
  consider "0 < x" | "x = 0" | "x < 0" "y < 0" | "x < 0" "0 \<le> y" by linarith
  then show "binary64 x \<le> binary64 y"
  proof cases
    case 1
    from 1 le show ?thesis by (rule binary64_mono_pos)
  next
    case 2
    with le binary64_pos[of y] show ?thesis by (cases "y = 0") auto
  next
    case 3
    with le have "0 < - y" "- y \<le> - x" by simp_all
    from binary64_mono_pos[OF this] show ?thesis by (simp add: binary64_minus)
  next
    case 4
    from 4(1) binary64_pos[of "- x"] have "binary64 x < 0" by (simp add: binary64_minus)
    moreover from 4(2) binary64_pos[of y] have "0 \<le> binary64 y" by (cases "y = 0") auto
    ultimately show ?thesis by simp
  qed
qed


lemma getScreenSpaceError_rounded_perspective:
  assumes "ge \<noteq> 0" "mode fs \<noteq> SCENE2D" "\<not> instanceofOrthographicFrustum (camera_frustum fs)"
  shows "getScreenSpaceError_rounded rnd (update_tile t (\<lambda>x. x\<lparr>distanceToCamera := d\<rparr>) s) ge t fs =
         (if dynamicScreenSpaceError s
          then rnd (rnd (rnd (ge * drawingBufferHeight fs)
                         / rnd (max d (rnd EPSILON7) * sseDenominator (camera_frustum fs)))
                    - rnd (fog fs (max d (rnd EPSILON7)) (dynamicScreenSpaceErrorComputedDensity s)
                             * dynamicScreenSpaceErrorFactor s))
          else rnd (rnd (ge * drawingBufferHeight fs)
                    / rnd (max d (rnd EPSILON7) * sseDenominator (camera_frustum fs))))"
  using assms by (simp add: getScreenSpaceError_rounded_def update_tile_def Let_def)

text \<open>
  C8, as amended. In a perspective view, with a positive geometric error, viewport
  height and \<open>sseDenominator\<close>, the screen-space error at a distance \<open>d2\<close> is never above
  the error at a nearer distance \<open>d1\<close>, whatever monotone rounding \<open>rnd\<close> the arithmetic
  applies to its results (the identity of exact arithmetic, or \<open>binary64\<close>), as long as
  the rounded denominator at \<open>d1\<close> is not zero. When the dynamic error is on, its factor
  is not negative and the fog does not shrink as the distance grows. The error need not
  be strictly smaller: at and below the floor \<open>EPSILON7\<close> the distance is clamped and the
  error is the same for both distances.
\<close>

theorem getScreenSpaceError_not_increasing_with_distance:
  fixes rnd :: "real \<Rightarrow> real"
  assumes rnd: "mono rnd" "rnd 0 = 0"
    and ge: "0 < ge" and h: "0 < drawingBufferHeight fs"
    and den: "0 < sseDenominator (camera_frustum fs)"
    and persp: "mode fs \<noteq> SCENE2D" "\<not> instanceofOrthographicFrustum (camera_frustum fs)"
    and d: "d1 < d2"
    and nz: "0 < rnd (max d1 (rnd EPSILON7) * sseDenominator (camera_frustum fs))"
    and dyn: "dynamicScreenSpaceError s \<Longrightarrow>
              0 \<le> dynamicScreenSpaceErrorFactor s \<and>
              (\<forall>a b. 0 \<le> a \<longrightarrow> a \<le> b \<longrightarrow>
                 fog fs a (dynamicScreenSpaceErrorComputedDensity s)
                   \<le> fog fs b (dynamicScreenSpaceErrorComputedDensity s))"
  shows "getScreenSpaceError_rounded rnd
             (update_tile t (\<lambda>x. x\<lparr>distanceToCamera := d2\<rparr>) s) ge t fs
           \<le> getScreenSpaceError_rounded rnd
               (update_tile t (\<lambda>x. x\<lparr>distanceToCamera := d1\<rparr>) s) ge t fs \<and>
         (d2 \<le> rnd EPSILON7 \<longrightarrow>
            getScreenSpaceError_rounded rnd
                (update_tile t (\<lambda>x. x\<lparr>distanceToCamera := d2\<rparr>) s) ge t fs
              = getScreenSpaceError_rounded rnd
                  (update_tile t (\<lambda>x. x\<lparr>distanceToCamera := d1\<rparr>) s) ge t fs)"
proof -
  let ?e = "rnd EPSILON7"
  let ?D1 = "max d1 ?e" and ?D2 = "max d2 ?e"
  let ?den = "sseDenominator (camera_frustum fs)"
  let ?N = "rnd (ge * drawingBufferHeight fs)"
  note m = monoD[OF rnd(1)]
  have e: "0 \<le> ?e" using m[of 0 EPSILON7] rnd(2) by (simp add: EPSILON7_def)
  have D: "?D1 \<le> ?D2" "0 \<le> ?D1" using d e by auto
  have N: "0 \<le> ?N" using m[of 0 "ge * drawingBufferHeight fs"] rnd(2) ge h by simp
  have A: "rnd (?D1 * ?den) \<le> rnd (?D2 * ?den)"
    using D(1) den by (intro m mult_right_mono) simp_all
  with nz have "0 < rnd (?D2 * ?den) * rnd (?D1 * ?den)" by (intro mult_pos_pos) simp_all
  with A N have "?N / rnd (?D2 * ?den) \<le> ?N / rnd (?D1 * ?den)"
    by (intro divide_left_mono)
  then have Q: "rnd (?N / rnd (?D2 * ?den)) \<le> rnd (?N / rnd (?D1 * ?den))" by (rule m)
  have F: "rnd (fog fs ?D1 (dynamicScreenSpaceErrorComputedDensity s)
                  * dynamicScreenSpaceErrorFactor s)
             \<le> rnd (fog fs ?D2 (dynamicScreenSpaceErrorComputedDensity s)
                      * dynamicScreenSpaceErrorFactor s)"
    if a: "dynamicScreenSpaceError s"
  proof -
    from dyn[OF a] D have "fog fs ?D1 (dynamicScreenSpaceErrorComputedDensity s)
                   \<le> fog fs ?D2 (dynamicScreenSpaceErrorComputedDensity s)"
      by blast
    with dyn[OF a] show ?thesis by (intro m mult_right_mono) simp_all
  qed
  have ne: "ge \<noteq> 0" using ge by simp
  have le: "getScreenSpaceError_rounded rnd
             (update_tile t (\<lambda>x. x\<lparr>distanceToCamera := d2\<rparr>) s) ge t fs
           \<le> getScreenSpaceError_rounded rnd
               (update_tile t (\<lambda>x. x\<lparr>distanceToCamera := d1\<rparr>) s) ge t fs"
  proof (cases "dynamicScreenSpaceError s")
    case True
    from m[OF diff_mono[OF Q F[OF True]]]
    have "rnd (rnd (?N / rnd (?D2 * ?den))
               - rnd (fog fs ?D2 (dynamicScreenSpaceErrorComputedDensity s)
                        * dynamicScreenSpaceErrorFactor s))
            \<le> rnd (rnd (?N / rnd (?D1 * ?den))
                   - rnd (fog fs ?D1 (dynamicScreenSpaceErrorComputedDensity s)
                            * dynamicScreenSpaceErrorFactor s))" .
    with True show ?thesis
      unfolding getScreenSpaceError_rounded_perspective[OF ne persp] by simp
  next
    case False
    with Q show ?thesis
      unfolding getScreenSpaceError_rounded_perspective[OF ne persp] by simp
  qed
  have eq: "getScreenSpaceError_rounded rnd
                (update_tile t (\<lambda>x. x\<lparr>distanceToCamera := d2\<rparr>) s) ge t fs
              = getScreenSpaceError_rounded rnd
                  (update_tile t (\<lambda>x. x\<lparr>distanceToCamera := d1\<rparr>) s) ge t fs"
    if c: "d2 \<le> ?e"
  proof -
    from c d have "?D1 = ?e" "?D2 = ?e" by auto
    then show ?thesis
      unfolding getScreenSpaceError_rounded_perspective[OF ne persp] by simp
  qed
  from le eq show ?thesis by blast
qed


lemma binary64_at:
  assumes "0 < x" and "2 powr of_int e \<le> x" and "x < 2 powr (of_int e + 1)"
    and "of_int n - 1 / 2 < x / 2 powr (of_int e - 52)"
    and "x / 2 powr (of_int e - 52) < of_int n + 1 / 2"
  shows "binary64 x = of_int n * 2 powr (of_int e - 52)"
  using binary64_eval[OF assms(1-3)] roundTiesToEven_near[OF assms(4,5)] by simp

lemma binary64_one: "binary64 1 = 1"
  using binary64_at[of 1 0 "2 ^ 52"] by (simp add: powr_minus_divide)

lemma binary64_seven: "binary64 7 = 7"
  using binary64_at[of 7 2 "7 * 2 ^ 50"] by (simp add: powr_minus_divide)

lemma binary64_after_seven: "binary64 (7 + 1 / 2 ^ 50) = 7 + 1 / 2 ^ 50"
  using binary64_at[of "7 + 1 / 2 ^ 50" 2 "7 * 2 ^ 50 + 1"] by (simp add: powr_minus_divide)

lemma binary64_seventh: "binary64 (1 / 7) = 5146971002709138 / 2 ^ 55"
  using binary64_at[of "1 / 7" "- 3" 5146971002709138] by (simp add: powr_minus_divide)

lemma binary64_after_seventh: "binary64 (1 / (7 + 1 / 2 ^ 50)) = 5146971002709138 / 2 ^ 55"
  using binary64_at[of "1 / (7 + 1 / 2 ^ 50)" "- 3" 5146971002709138]
  by (simp add: powr_minus_divide)

lemma binary64_EPSILON7: "1 / 2 ^ 24 \<le> binary64 EPSILON7" "binary64 EPSILON7 \<le> 1"
proof -
  have "\<lfloor>log 2 EPSILON7\<rfloor> = - 24"
    by (simp add: floor_log_eq_powr_iff EPSILON7_def powr_minus_divide)
  with binary64_bounds(1)[of EPSILON7] show "1 / 2 ^ 24 \<le> binary64 EPSILON7"
    by (simp add: EPSILON7_def powr_minus_divide)
  from monoD[OF binary64_mono, of EPSILON7 1] show "binary64 EPSILON7 \<le> 1"
    by (simp add: EPSILON7_def binary64_one)
qed


lemma example_fog_mono:
  assumes "0 \<le> a" and "a \<le> b"
  shows "fog example_frame a \<rho> \<le> fog example_frame b \<rho>"
proof -
  from assms have "a * a \<le> b * b" by (simp add: mult_mono)
  then have "(a * a) * (\<rho> * \<rho>) \<le> (b * b) * (\<rho> * \<rho>)"
    by (rule mult_right_mono) simp
  then have "(a * \<rho>) * (a * \<rho>) \<le> (b * \<rho>) * (b * \<rho>)"
    by (simp add: mult.assoc mult.left_commute)
  then show ?thesis by (simp add: example_frame_def)
qed

theorem getScreenSpaceError_not_increasing_with_distance_witness:
  "(1::real) < 2 \<and> dynamicScreenSpaceError foggy_tileset \<and>
   fog example_frame 1 (dynamicScreenSpaceErrorComputedDensity foggy_tileset)
     < fog example_frame 2 (dynamicScreenSpaceErrorComputedDensity foggy_tileset) \<and>
   getScreenSpaceError_rounded binary64
       (update_tile 0 (\<lambda>x. x\<lparr>distanceToCamera := 2\<rparr>) foggy_tileset) 10 0 example_frame
     \<le> getScreenSpaceError_rounded binary64
         (update_tile 0 (\<lambda>x. x\<lparr>distanceToCamera := 1\<rparr>) foggy_tileset) 10 0 example_frame"
proof -
  have h: "0 < drawingBufferHeight example_frame" "0 < sseDenominator (camera_frustum example_frame)"
    "mode example_frame \<noteq> SCENE2D" "\<not> instanceofOrthographicFrustum (camera_frustum example_frame)"
    by (simp_all add: example_frame_def)
  have nz: "0 < binary64 (max 1 (binary64 EPSILON7) * sseDenominator (camera_frustum example_frame))"
    by (rule binary64_pos) (simp add: example_frame_def)
  have f: "0 \<le> dynamicScreenSpaceErrorFactor foggy_tileset" "dynamicScreenSpaceError foggy_tileset"
    "dynamicScreenSpaceErrorComputedDensity foggy_tileset = 1"
    by (simp_all add: foggy_tileset_def example_tileset_def)
  have g: "fog example_frame 1 1 < fog example_frame 2 1"
    by (simp add: example_frame_def)
  from getScreenSpaceError_not_increasing_with_distance
         [of binary64 10 example_frame 1 2 foggy_tileset 0, OF binary64_mono binary64_zero _ h _ nz]
    f example_fog_mono g
  show ?thesis by simp
qed

text \<open>
  The claim as stated fails in two ways. Two distances under the floor are both clamped
  to \<open>EPSILON7\<close> and give the same error. And above the floor the rounding can give two
  distances the same error: 7 and the next number after 7, with a geometric error of
  one half in a viewport of height 2, both give the number nearest to one seventh.
\<close>

theorem getScreenSpaceError_not_strict_counterexample:
  "(0::real) < 1 / 2 ^ 30 \<and>
   \<not> getScreenSpaceError_rounded binary64
         (update_tile 0 (\<lambda>x. x\<lparr>distanceToCamera := 1 / 2 ^ 30\<rparr>)
            (example_tileset 10 root_and_child)) 10 0 example_frame
       < getScreenSpaceError_rounded binary64
           (update_tile 0 (\<lambda>x. x\<lparr>distanceToCamera := 0\<rparr>)
              (example_tileset 10 root_and_child)) 10 0 example_frame \<and>
   binary64 EPSILON7 < 7 \<and> (7::real) < 7 + 1 / 2 ^ 50 \<and>
   \<not> getScreenSpaceError_rounded binary64
         (update_tile 0 (\<lambda>x. x\<lparr>distanceToCamera := 7 + 1 / 2 ^ 50\<rparr>)
            (example_tileset 10 root_and_child)) (1 / 2) 0 example_frame
       < getScreenSpaceError_rounded binary64
           (update_tile 0 (\<lambda>x. x\<lparr>distanceToCamera := 7\<rparr>)
              (example_tileset 10 root_and_child)) (1 / 2) 0 example_frame"
proof -
  note e = binary64_EPSILON7
  have m: "max 0 (binary64 EPSILON7) = binary64 EPSILON7"
    "max (1 / 2 ^ 30) (binary64 EPSILON7) = binary64 EPSILON7"
    "max 7 (binary64 EPSILON7) = 7"
    "max (7 + 1 / 2 ^ 50) (binary64 EPSILON7) = 7 + 1 / 2 ^ 50"
    using e by (simp_all add: max_def)
  have p: "mode example_frame \<noteq> SCENE2D"
    "\<not> instanceofOrthographicFrustum (camera_frustum example_frame)"
    "drawingBufferHeight example_frame = 2" "sseDenominator (camera_frustum example_frame) = 1"
    "\<not> dynamicScreenSpaceError (example_tileset 10 root_and_child)"
    by (simp_all add: example_frame_def example_tileset_def)
  have ne: "(10::real) \<noteq> 0" "(1 / 2::real) \<noteq> 0" by simp_all
  have n: "binary64 (1 / 2 * 2) = 1" by (simp add: binary64_one)
  have c: "getScreenSpaceError_rounded binary64
             (update_tile 0 (\<lambda>x. x\<lparr>distanceToCamera := 1 / 2 ^ 30\<rparr>)
                (example_tileset 10 root_and_child)) 10 0 example_frame
           = getScreenSpaceError_rounded binary64
               (update_tile 0 (\<lambda>x. x\<lparr>distanceToCamera := 0\<rparr>)
                  (example_tileset 10 root_and_child)) 10 0 example_frame"
    by (simp only: getScreenSpaceError_rounded_perspective[OF ne(1) p(1,2)] m p(5) if_False)
  have r1: "getScreenSpaceError_rounded binary64
              (update_tile 0 (\<lambda>x. x\<lparr>distanceToCamera := 7\<rparr>)
                 (example_tileset 10 root_and_child)) (1 / 2) 0 example_frame
            = 5146971002709138 / 2 ^ 55"
    by (simp only: getScreenSpaceError_rounded_perspective[OF ne(2) p(1,2)] m p if_False n
          mult_1_right binary64_seven binary64_seventh)
  have r2: "getScreenSpaceError_rounded binary64
              (update_tile 0 (\<lambda>x. x\<lparr>distanceToCamera := 7 + 1 / 2 ^ 50\<rparr>)
                 (example_tileset 10 root_and_child)) (1 / 2) 0 example_frame
            = 5146971002709138 / 2 ^ 55"
    by (simp only: getScreenSpaceError_rounded_perspective[OF ne(2) p(1,2)] m p if_False n
          mult_1_right binary64_after_seven binary64_after_seventh)
  have "binary64 EPSILON7 < 7" using e(2) by simp
  then show ?thesis unfolding c r1 r2 by simp
qed

end
